theory Spec2Isabelle
  imports Main
begin

section \<open>Data model\<close>

text \<open>
  Go's \<open>int32\<close>. The only arithmetic the handler performs on such a value is
  \<open>index - 1\<close> under the loop guard \<open>index > 0\<close>, which cannot leave the 32-bit
  range, so the values are kept as integers.
\<close>

type_synonym int32 = int

text \<open>The pod template of a StatefulSet, as far as the handler looks at it.\<close>

record podTemplateSpec =
  Image :: string
  Env :: "(string \<times> string) list"

text \<open>
  \<open>apps.StatefulSet\<close>. \<open>Replicas\<close> is \<open>Spec.Replicas\<close>, a pointer in Go;
  \<open>Partition\<close> is \<open>Spec.UpdateStrategy.RollingUpdate.Partition\<close>, reached through
  two pointers. \<open>None\<close> is the nil pointer; dereferencing it panics.
  \<open>StatusReplicas\<close> is \<open>Status.Replicas\<close>.
\<close>

record statefulSet =
  Name :: string
  Namespace :: string
  ResourceVersion :: string
  Replicas :: "int32 option"
  Template :: podTemplateSpec
  Partition :: "int32 option"
  StatusReplicas :: int32

text \<open>
  Go \<open>error\<close> values: the API server's status errors by reason, errors of the
  cluster health collaborator, the poll timeout of \<open>wait.Poll\<close>, and the messages
  the handler builds with \<open>fmt.Errorf\<close> (one constructor per format string, the
  arguments kept as arguments).
\<close>

datatype statusReason = NotFound | AlreadyExists | Conflict | OtherReason

datatype error =
    StatusError statusReason
  | OracleError string
  | ErrWaitTimeout
  | CouldNotUpdate string int error
  | CouldNotCreate error
  | WaitingForRecovery string string
  | UnableToGetReplicas string
  | TimedOutRejoin string
  | TimedOutLeave string

fun IsNotFound :: "error \<Rightarrow> bool" where
  "IsNotFound (StatusError NotFound) = True"
| "IsNotFound _ = False"

fun IsAlreadyExists :: "error \<Rightarrow> bool" where
  "IsAlreadyExists (StatusError AlreadyExists) = True"
| "IsAlreadyExists _ = False"

fun IsConflict :: "error \<Rightarrow> bool" where
  "IsConflict (StatusError Conflict) = True"
| "IsConflict _ = False"

text \<open>
  Every call that leaves the process is recorded, in order. The number of calls made
  so far is the clock the collaborators' answers are indexed by.
\<close>

datatype request =
    ReqGet string string
  | ReqUpdate statefulSet
  | ReqCreate statefulSet
  | ReqDeletePod string string
  | ReqHealth string string
  | ReqNodeCount string string
  | ReqConfigmapHash string string
  | ReqSecretHash string string

text \<open>
  The collaborators, taken as parameters: what the API server, the cluster health
  endpoint and the pod template comparison answer to the call made at a given clock
  value. An API call fails when its entry is \<open>Some e\<close>.
\<close>

record env =
  getErr :: "nat \<Rightarrow> error option"
  updateErr :: "nat \<Rightarrow> error option"
  createErr :: "nat \<Rightarrow> error option"
  deletePodErr :: "nat \<Rightarrow> error option"
  resourceVersionAt :: "nat \<Rightarrow> string"
  health :: "nat \<Rightarrow> string \<times> error option"
  nodeCount :: "nat \<Rightarrow> int32 \<times> error option"
  configmapHashAt :: "nat \<Rightarrow> string"
  secretHashAt :: "nat \<Rightarrow> string"
  UpdatePodTemplateSpec :: "string \<Rightarrow> podTemplateSpec \<Rightarrow> podTemplateSpec \<Rightarrow> bool \<times> podTemplateSpec"

text \<open>
  \<open>statefulSetNode\<close>: the struct's fields \<open>self\<close>, \<open>configmapHash\<close>,
  \<open>secretHash\<close>, \<open>clusterName\<close>, \<open>clusterSize\<close>, and, for the field
  \<open>client\<close>, what the client reaches: the objects held by the API server
  (by namespace and name) and the record of calls made.
\<close>

record statefulSetNode =
  self :: statefulSet
  configmapHash :: string
  secretHash :: string
  clusterName :: string
  clusterSize :: int32
  store :: "string \<times> string \<Rightarrow> statefulSet option"
  trace :: "request list"

text \<open>A function body either returns a value or panics (nil pointer dereference).\<close>

datatype 'a outcome = Return 'a | Panic

definition clock :: "statefulSetNode \<Rightarrow> nat" where
  "clock s = length (trace s)"

definition emit :: "request \<Rightarrow> statefulSetNode \<Rightarrow> statefulSetNode" where
  "emit r s = s\<lparr>trace := trace s @ [r]\<rparr>"

definition emptyTemplate :: podTemplateSpec where
  "emptyTemplate = \<lparr>Image = [], Env = []\<rparr>"

text \<open>The zero value \<open>apps.StatefulSet{}\<close>.\<close>

definition emptyStatefulSet :: statefulSet where
  "emptyStatefulSet = \<lparr>Name = [], Namespace = [], ResourceVersion = [], Replicas = None,
     Template = emptyTemplate, Partition = None, StatusReplicas = 0\<rparr>"

section \<open>The client and the collaborators\<close>

text \<open>
  \<open>client.Get\<close>: the caller stores the object where its pointer argument says.
  The server answers with the object of the name and namespace asked for.
\<close>

definition client_Get :: "env \<Rightarrow> string \<Rightarrow> string \<Rightarrow> statefulSetNode \<Rightarrow> (error + statefulSet) \<times> statefulSetNode" where
  "client_Get e name ns s =
     (let s' = emit (ReqGet name ns) s in
      case getErr e (clock s) of
        Some err \<Rightarrow> (Inl err, s')
      | None \<Rightarrow>
          (case store s (ns, name) of
             None \<Rightarrow> (Inl (StatusError NotFound), s')
           | Some obj \<Rightarrow> (Inr (obj\<lparr>Name := name, Namespace := ns\<rparr>), s')))"

text \<open>
  \<open>client.Update(&node.self)\<close>: replaces the stored object's metadata and spec;
  the status is a subresource and stays as the server has it. The object in memory
  receives the server's answer.
\<close>

definition client_Update :: "env \<Rightarrow> statefulSetNode \<Rightarrow> error option \<times> statefulSetNode" where
  "client_Update e s =
     (let obj = self s; s' = emit (ReqUpdate obj) s in
      case updateErr e (clock s) of
        Some err \<Rightarrow> (Some err, s')
      | None \<Rightarrow>
          (case store s (Namespace obj, Name obj) of
             None \<Rightarrow> (Some (StatusError NotFound), s')
           | Some live \<Rightarrow>
               (let stored = obj\<lparr>ResourceVersion := resourceVersionAt e (clock s),
                                  StatusReplicas := StatusReplicas live\<rparr>
                in (None, s'\<lparr>self := stored,
                             store := (store s')((Namespace obj, Name obj) \<mapsto> stored)\<rparr>))))"

text \<open>\<open>client.Create(&node.self)\<close>.\<close>

definition client_Create :: "env \<Rightarrow> statefulSetNode \<Rightarrow> error option \<times> statefulSetNode" where
  "client_Create e s =
     (let obj = self s; s' = emit (ReqCreate obj) s in
      case createErr e (clock s) of
        Some err \<Rightarrow> (Some err, s')
      | None \<Rightarrow>
          (case store s (Namespace obj, Name obj) of
             Some live \<Rightarrow> (Some (StatusError AlreadyExists), s')
           | None \<Rightarrow>
               (let stored = obj\<lparr>ResourceVersion := resourceVersionAt e (clock s)\<rparr>
                in (None, s'\<lparr>self := stored,
                             store := (store s')((Namespace obj, Name obj) \<mapsto> stored)\<rparr>))))"

definition GetClusterHealthStatus :: "env \<Rightarrow> string \<Rightarrow> string \<Rightarrow> statefulSetNode \<Rightarrow> (string \<times> error option) \<times> statefulSetNode" where
  "GetClusterHealthStatus e cluster ns s = (health e (clock s), emit (ReqHealth cluster ns) s)"

definition GetClusterNodeCount :: "env \<Rightarrow> string \<Rightarrow> string \<Rightarrow> statefulSetNode \<Rightarrow> (int32 \<times> error option) \<times> statefulSetNode" where
  "GetClusterNodeCount e cluster ns s = (nodeCount e (clock s), emit (ReqNodeCount cluster ns) s)"

definition DeletePod :: "env \<Rightarrow> string \<Rightarrow> string \<Rightarrow> statefulSetNode \<Rightarrow> error option \<times> statefulSetNode" where
  "DeletePod e podName ns s = (deletePodErr e (clock s), emit (ReqDeletePod podName ns) s)"

definition getConfigmapDataHash :: "env \<Rightarrow> string \<Rightarrow> string \<Rightarrow> statefulSetNode \<Rightarrow> string \<times> statefulSetNode" where
  "getConfigmapDataHash e cluster ns s = (configmapHashAt e (clock s), emit (ReqConfigmapHash cluster ns) s)"

definition getSecretDataHash :: "env \<Rightarrow> string \<Rightarrow> string \<Rightarrow> statefulSetNode \<Rightarrow> string \<times> statefulSetNode" where
  "getSecretDataHash e cluster ns s = (secretHashAt e (clock s), emit (ReqSecretHash cluster ns) s)"

section \<open>Library loops\<close>

text \<open>
  \<open>wait.Poll(interval, timeout, condition)\<close>: the condition is tried once per
  interval until it reports done, reports an error, or the timeout has passed.
  With the handler's arguments (one second, sixty seconds) that is sixty tries.
\<close>

definition pollInterval :: nat where
  "pollInterval = 1"

definition pollTimeout :: nat where
  "pollTimeout = 60"

definition pollTries :: "nat \<Rightarrow> nat \<Rightarrow> nat" where
  "pollTries interval timeout = timeout div interval"

fun wait_Poll :: "nat \<Rightarrow> (statefulSetNode \<Rightarrow> (bool \<times> error option) \<times> statefulSetNode) \<Rightarrow> statefulSetNode \<Rightarrow> error option \<times> statefulSetNode" where
  "wait_Poll 0 condition s = (Some ErrWaitTimeout, s)"
| "wait_Poll (Suc n) condition s =
     (case condition s of
        ((done, Some err), s') \<Rightarrow> (Some err, s')
      | ((True, None), s') \<Rightarrow> (None, s')
      | ((False, None), s') \<Rightarrow> wait_Poll n condition s')"

text \<open>
  \<open>retry.RetryOnConflict(retry.DefaultRetry, fn)\<close>: \<open>fn\<close> is run up to
  \<open>DefaultRetry.Steps\<close> times; a nil result or an error that is not a conflict ends
  the loop with that result; when the steps run out the last conflict is returned.
  The integer threaded through is the variable the closure captures (\<open>nretries\<close>).
\<close>

definition DefaultRetry_Steps :: nat where
  "DefaultRetry_Steps = 5"

fun retryLoop :: "nat \<Rightarrow> (int \<Rightarrow> statefulSetNode \<Rightarrow> error option outcome \<times> int \<times> statefulSetNode) \<Rightarrow> error option \<Rightarrow> int \<Rightarrow> statefulSetNode \<Rightarrow> error option outcome \<times> int \<times> statefulSetNode" where
  "retryLoop 0 fn lastConflictErr c s = (Return lastConflictErr, c, s)"
| "retryLoop (Suc k) fn lastConflictErr c s =
     (case fn c s of
        (Panic, c', s') \<Rightarrow> (Panic, c', s')
      | (Return None, c', s') \<Rightarrow> (Return None, c', s')
      | (Return (Some err), c', s') \<Rightarrow>
          (if IsConflict err then retryLoop k fn (Some err) c' s'
           else (Return (Some err), c', s')))"

definition RetryOnConflict :: "(int \<Rightarrow> statefulSetNode \<Rightarrow> error option outcome \<times> int \<times> statefulSetNode) \<Rightarrow> int \<Rightarrow> statefulSetNode \<Rightarrow> error option outcome \<times> int \<times> statefulSetNode" where
  "RetryOnConflict fn c s = retryLoop DefaultRetry_Steps fn None c s"

section \<open>The handler\<close>

definition name :: "statefulSetNode \<Rightarrow> string" where
  "name s = Name (self s)"

subsection \<open>Waiting for cluster membership\<close>

text \<open>
  The condition closures. \<open>done\<close> and \<open>err\<close> are the closure's named results,
  zero-valued on entry; \<open>getErr\<close> is what the node count fetch returned.
\<close>

definition rejoinCondition :: "env \<Rightarrow> statefulSetNode \<Rightarrow> (bool \<times> error option) \<times> statefulSetNode" where
  "rejoinCondition e s =
     (let done = False; err = (None :: error option);
          ((clusterSize', getErr'), s') = GetClusterNodeCount e (clusterName s) (Namespace (self s)) s
      in if err \<noteq> None then ((False, getErr'), s')
         else ((clusterSize s \<le> clusterSize', None), s'))"

definition leaveCondition :: "env \<Rightarrow> statefulSetNode \<Rightarrow> (bool \<times> error option) \<times> statefulSetNode" where
  "leaveCondition e s =
     (let done = False; err = (None :: error option);
          ((clusterSize', getErr'), s') = GetClusterNodeCount e (clusterName s) (Namespace (self s)) s
      in if err \<noteq> None then ((False, getErr'), s')
         else ((clusterSize s > clusterSize', None), s'))"

definition waitForNodeRejoinCluster :: "env \<Rightarrow> statefulSetNode \<Rightarrow> (error option \<times> bool) \<times> statefulSetNode" where
  "waitForNodeRejoinCluster e s =
     (let (err, s') = wait_Poll (pollTries pollInterval pollTimeout) (rejoinCondition e) s
      in ((err, err = None), s'))"

definition waitForNodeLeaveCluster :: "env \<Rightarrow> statefulSetNode \<Rightarrow> (error option \<times> bool) \<times> statefulSetNode" where
  "waitForNodeLeaveCluster e s =
     (let (err, s') = wait_Poll (pollTries pollInterval pollTimeout) (leaveCondition e) s
      in ((err, err = None), s'))"

subsection \<open>Partition and replica count\<close>

definition setPartition_try :: "env \<Rightarrow> int32 \<Rightarrow> int \<Rightarrow> statefulSetNode \<Rightarrow> error option outcome \<times> int \<times> statefulSetNode" where
  "setPartition_try e partitions nretries s =
     (case client_Get e (Name (self s)) (Namespace (self s)) s of
        (Inl getErr', s') \<Rightarrow> (Return (Some getErr'), nretries + 1, s')
      | (Inr obj, s') \<Rightarrow>
          (let s1 = s'\<lparr>self := obj\<rparr> in
           case Partition (self s1) of
             None \<Rightarrow> (Panic, nretries + 1, s1)
           | Some p \<Rightarrow>
               if p = partitions then (Return None, nretries + 1, s1)
               else
                 (case client_Update e (s1\<lparr>self := (self s1)\<lparr>Partition := Some partitions\<rparr>\<rparr>) of
                    (Some updateErr', s2) \<Rightarrow> (Return (Some updateErr'), nretries + 1, s2)
                  | (None, s2) \<Rightarrow> (Return None, nretries + 1, s2))))"

definition setPartition :: "env \<Rightarrow> int32 \<Rightarrow> statefulSetNode \<Rightarrow> error option outcome \<times> statefulSetNode" where
  "setPartition e partitions s =
     (case RetryOnConflict (setPartition_try e partitions) (- 1) s of
        (Panic, nretries, s') \<Rightarrow> (Panic, s')
      | (Return (Some retryErr), nretries, s') \<Rightarrow>
          (Return (Some (CouldNotUpdate (Name (self s')) nretries retryErr)), s')
      | (Return None, nretries, s') \<Rightarrow> (Return None, s'))"

definition partition_node :: "env \<Rightarrow> statefulSetNode \<Rightarrow> (int32 \<times> error option) outcome \<times> statefulSetNode" where
  "partition_node e s =
     (case client_Get e (Name (self s)) (Namespace (self s)) s of
        (Inl err, s') \<Rightarrow> (Return (- 1, Some err), s')
      | (Inr desired, s') \<Rightarrow>
          (case Partition desired of
             None \<Rightarrow> (Panic, s')
           | Some p \<Rightarrow> (Return (p, None), s')))"

definition setReplicaCount_try :: "env \<Rightarrow> int32 \<Rightarrow> int \<Rightarrow> statefulSetNode \<Rightarrow> error option outcome \<times> int \<times> statefulSetNode" where
  "setReplicaCount_try e replicas nretries s =
     (case client_Get e (Name (self s)) (Namespace (self s)) s of
        (Inl getErr', s') \<Rightarrow> (Return (Some getErr'), nretries + 1, s')
      | (Inr obj, s') \<Rightarrow>
          (let s1 = s'\<lparr>self := obj\<rparr> in
           case Replicas (self s1) of
             None \<Rightarrow> (Panic, nretries + 1, s1)
           | Some r \<Rightarrow>
               if r = replicas then (Return None, nretries + 1, s1)
               else
                 (case client_Update e (s1\<lparr>self := (self s1)\<lparr>Replicas := Some replicas\<rparr>\<rparr>) of
                    (Some updateErr', s2) \<Rightarrow> (Return (Some updateErr'), nretries + 1, s2)
                  | (None, s2) \<Rightarrow> (Return None, nretries + 1, s2))))"

definition setReplicaCount :: "env \<Rightarrow> int32 \<Rightarrow> statefulSetNode \<Rightarrow> error option outcome \<times> statefulSetNode" where
  "setReplicaCount e replicas s =
     (case RetryOnConflict (setReplicaCount_try e replicas) (- 1) s of
        (Panic, nretries, s') \<Rightarrow> (Panic, s')
      | (Return (Some retryErr), nretries, s') \<Rightarrow>
          (Return (Some (CouldNotUpdate (Name (self s')) nretries retryErr)), s')
      | (Return None, nretries, s') \<Rightarrow> (Return None, s'))"

definition replicaCount :: "env \<Rightarrow> statefulSetNode \<Rightarrow> (int32 \<times> error option) \<times> statefulSetNode" where
  "replicaCount e s =
     (case client_Get e (Name (self s)) (Namespace (self s)) s of
        (Inl err, s') \<Rightarrow> ((- 1, Some err), s')
      | (Inr desired, s') \<Rightarrow> ((StatusReplicas desired, None), s'))"

subsection \<open>Existence, creation, scaling\<close>

definition isMissing :: "env \<Rightarrow> statefulSetNode \<Rightarrow> bool \<times> statefulSetNode" where
  "isMissing e s =
     (case client_Get e (name s) (Namespace (self s)) s of
        (Inl getErr', s') \<Rightarrow> (IsNotFound getErr', s')
      | (Inr getNode, s') \<Rightarrow> (False, s'))"

text \<open>
  \<open>desired\<close> is the copy of \<open>node.self\<close> taken before the fetch overwrites it.
  Both replica pointers are dereferenced in the comparison.
\<close>

definition scale :: "env \<Rightarrow> statefulSetNode \<Rightarrow> unit outcome \<times> statefulSetNode" where
  "scale e s =
     (let desired = self s in
      case client_Get e (Name (self s)) (Namespace (self s)) s of
        (Inl err, s') \<Rightarrow> (Return (), s')
      | (Inr obj, s') \<Rightarrow>
          (let s1 = s'\<lparr>self := obj\<rparr> in
           case Replicas desired of
             None \<Rightarrow> (Panic, s1)
           | Some d \<Rightarrow>
               (case Replicas (self s1) of
                  None \<Rightarrow> (Panic, s1)
                | Some r \<Rightarrow>
                    if d \<noteq> r then
                      (case setReplicaCount e d (s1\<lparr>self := (self s1)\<lparr>Replicas := Replicas desired\<rparr>\<rparr>) of
                         (Panic, s2) \<Rightarrow> (Panic, s2)
                       | (Return err, s2) \<Rightarrow> (Return (), s2))
                    else (Return (), s1))))"

definition create :: "env \<Rightarrow> statefulSetNode \<Rightarrow> error option outcome \<times> statefulSetNode" where
  "create e s =
     (if ResourceVersion (self s) = [] then
        (case client_Create e s of
           (Some err, s') \<Rightarrow>
             if \<not> IsAlreadyExists err then (Return (Some (CouldNotCreate err)), s')
             else
               (case scale e s' of
                  (Panic, s2) \<Rightarrow> (Panic, s2)
                | (Return u, s2) \<Rightarrow> (Return None, s2))
         | (None, s') \<Rightarrow>
             (let (h, s1) = getConfigmapDataHash e (clusterName s') (Namespace (self s')) s';
                  s2 = s1\<lparr>configmapHash := h\<rparr>;
                  (h', s3) = getSecretDataHash e (clusterName s2) (Namespace (self s2)) s2
              in (Return None, s3\<lparr>secretHash := h'\<rparr>)))
      else
        (case scale e s of
           (Panic, s2) \<Rightarrow> (Panic, s2)
         | (Return u, s2) \<Rightarrow> (Return None, s2)))"

subsection \<open>Change detection and spec update\<close>

text \<open>
  \<open>desired\<close> is declared as the zero value and never assigned; the node's spec is
  blanked before the fetch, and the fetch overwrites \<open>node.self\<close>. The comparison
  receives pointers to the live template and to the zero value's template, and may
  write through the first.
\<close>

definition isChanged :: "env \<Rightarrow> statefulSetNode \<Rightarrow> bool \<times> statefulSetNode" where
  "isChanged e s =
     (let desired = emptyStatefulSet;
          s0 = s\<lparr>self := (self s)\<lparr>Replicas := None, Template := emptyTemplate, Partition := None\<rparr>\<rparr>
      in case client_Get e (Name (self s0)) (Namespace (self s0)) s0 of
           (Inl err, s') \<Rightarrow> (False, s')
         | (Inr obj, s') \<Rightarrow>
             (let s1 = s'\<lparr>self := obj\<rparr>;
                  (changed, tmpl) = UpdatePodTemplateSpec e (Name (self s1)) (Template (self s1)) (Template desired)
              in (changed, s1\<lparr>self := (self s1)\<lparr>Template := tmpl\<rparr>\<rparr>)))"

definition executeUpdate_try :: "env \<Rightarrow> int \<Rightarrow> statefulSetNode \<Rightarrow> error option outcome \<times> int \<times> statefulSetNode" where
  "executeUpdate_try e c s =
     (case isChanged e s of
        (True, s') \<Rightarrow>
          (case client_Update e s' of
             (Some updateErr', s2) \<Rightarrow> (Return (Some updateErr'), c, s2)
           | (None, s2) \<Rightarrow> (Return None, c, s2))
      | (False, s') \<Rightarrow> (Return None, c, s'))"

definition executeUpdate :: "env \<Rightarrow> statefulSetNode \<Rightarrow> error option outcome \<times> statefulSetNode" where
  "executeUpdate e s =
     (case RetryOnConflict (executeUpdate_try e) 0 s of
        (r, c, s') \<Rightarrow> (r, s'))"

definition refreshHashes :: "env \<Rightarrow> statefulSetNode \<Rightarrow> statefulSetNode" where
  "refreshHashes e s =
     (let (newConfigmapHash, s1) = getConfigmapDataHash e (clusterName s) (Namespace (self s)) s;
          s2 = (if newConfigmapHash \<noteq> configmapHash s1 then s1\<lparr>configmapHash := newConfigmapHash\<rparr> else s1);
          (newSecretHash, s3) = getSecretDataHash e (clusterName s2) (Namespace (self s2)) s2
      in if newSecretHash \<noteq> secretHash s3 then s3\<lparr>secretHash := newSecretHash\<rparr> else s3)"

subsection \<open>Upgrade status\<close>

text \<open>
  \<open>v1.ConditionStatus\<close>, with the empty string the handler assigns when a cycle
  ends.
\<close>

datatype conditionStatus = ConditionTrue | ConditionFalse | ConditionUnknown | ConditionEmpty

text \<open>
  Modelled from the spec: the declaration of the upgrade phase type (package
  \<open>api\<close>) is not among the sources; the spec gives it as the enumeration
  \<open>{Empty, NodeRestarting, RecoveringData, ControllerUpdated}\<close>, \<open>Empty\<close> being
  the empty string the handler compares with.
\<close>

datatype upgradePhase = Empty | NodeRestarting | RecoveringData | ControllerUpdated

text \<open>
  The part of \<open>api.ElasticsearchNodeStatus.UpgradeStatus\<close> the entry points read
  and write. \<open>phaseHistory\<close> is a ghost field: every assignment to
  \<open>UpgradePhase\<close> appends the assigned value; nothing reads it.
\<close>

record upgradeStatus =
  UnderUpgrade :: conditionStatus
  UpgradePhase :: upgradePhase
  phaseHistory :: "upgradePhase list"

definition setPhase :: "upgradePhase \<Rightarrow> upgradeStatus \<Rightarrow> upgradeStatus" where
  "setPhase p st = st\<lparr>UpgradePhase := p, phaseHistory := phaseHistory st @ [p]\<rparr>"

text \<open>
  How a block of an entry point ends: control goes on to the next statement, the
  entry point returns, or the process panics.
\<close>

datatype 'r flow = Continue | Returned 'r | Panicked

definition andThen :: "'r flow \<times> upgradeStatus \<times> statefulSetNode \<Rightarrow> (upgradeStatus \<Rightarrow> statefulSetNode \<Rightarrow> 'r flow \<times> upgradeStatus \<times> statefulSetNode) \<Rightarrow> 'r flow \<times> upgradeStatus \<times> statefulSetNode" where
  "andThen r f =
     (case r of
        (Continue, st, s) \<Rightarrow> f st s
      | (Returned x, st, s) \<Rightarrow> (Returned x, st, s)
      | (Panicked, st, s) \<Rightarrow> (Panicked, st, s))"

text \<open>Reaching the end of the body returns \<open>r\<close>.\<close>

definition finish :: "'r \<Rightarrow> 'r flow \<times> upgradeStatus \<times> statefulSetNode \<Rightarrow> 'r outcome \<times> upgradeStatus \<times> statefulSetNode" where
  "finish r x =
     (case x of
        (Continue, st, s) \<Rightarrow> (Return r, st, s)
      | (Returned y, st, s) \<Rightarrow> (Return y, st, s)
      | (Panicked, st, s) \<Rightarrow> (Panic, st, s))"

text \<open>\<open>for index := ordinal; index > 0; index-- { body }\<close>\<close>

function forDown :: "(int32 \<Rightarrow> statefulSetNode \<Rightarrow> 'r flow \<times> statefulSetNode) \<Rightarrow> int32 \<Rightarrow> statefulSetNode \<Rightarrow> 'r flow \<times> statefulSetNode" where
  "forDown body index s =
     (if index > 0 then
        (case body index s of
           (Continue, s') \<Rightarrow> forDown body (index - 1) s'
         | (Returned x, s') \<Rightarrow> (Returned x, s')
         | (Panicked, s') \<Rightarrow> (Panicked, s'))
      else (Continue, s))"
  by pat_completeness auto
termination
  by (relation "measure (\<lambda>(body, index, s). nat index)") auto

text \<open>\<open>fmt.Sprintf("%v-%v", node.name(), index-1)\<close>\<close>

fun showNat :: "nat \<Rightarrow> string" where
  "showNat n =
     (if n < 10 then [char_of (48 + n)]
      else showNat (n div 10) @ [char_of (48 + n mod 10)])"

definition showInt :: "int \<Rightarrow> string" where
  "showInt i = (if i < 0 then CHR ''-'' # showNat (nat (- i)) else showNat (nat i))"

definition podNameOf :: "string \<Rightarrow> int32 \<Rightarrow> string" where
  "podNameOf n i = n @ ''-'' @ showInt i"

subsection \<open>Blocks shared by the entry points\<close>

text \<open>The last block of each entry point.\<close>

definition recoveringData :: "upgradeStatus \<Rightarrow> statefulSetNode \<Rightarrow> 'r flow \<times> upgradeStatus \<times> statefulSetNode" where
  "recoveringData st s =
     (if UpgradePhase st = RecoveringData then
        (Continue, (setPhase ControllerUpdated st)\<lparr>UnderUpgrade := ConditionEmpty\<rparr>, s)
      else (Continue, st, s))"

text \<open>The second block of \<open>rollingRestart\<close> and \<open>fullClusterRestart\<close>.\<close>

definition restart_idle :: "upgradeStatus \<Rightarrow> statefulSetNode \<Rightarrow> 'r flow \<times> upgradeStatus \<times> statefulSetNode" where
  "restart_idle st s =
     (if UpgradePhase st = Empty \<or> UpgradePhase st = ControllerUpdated then
        (Continue, setPhase NodeRestarting st, s)
      else (Continue, st, s))"

subsection \<open>rollingRestart\<close>

definition rollingRestart_start :: "env \<Rightarrow> upgradeStatus \<Rightarrow> statefulSetNode \<Rightarrow> unit flow \<times> upgradeStatus \<times> statefulSetNode" where
  "rollingRestart_start e st s =
     (if UnderUpgrade st \<noteq> ConditionTrue then
        (case GetClusterHealthStatus e (clusterName s) (Namespace (self s)) s of
           ((status, herr), s1) \<Rightarrow>
             if status \<noteq> ''green'' then (Returned (), st, s1)
             else
               (case GetClusterNodeCount e (clusterName s1) (Namespace (self s1)) s1 of
                  ((sz, err), s2) \<Rightarrow>
                    if err \<noteq> None then (Returned (), st, s2)
                    else
                      (case replicaCount e (s2\<lparr>clusterSize := sz\<rparr>) of
                         ((replicas, err'), s3) \<Rightarrow>
                           if err' \<noteq> None then (Returned (), st, s3)
                           else
                             (case setPartition e replicas s3 of
                                (Panic, s4) \<Rightarrow> (Panicked, st, s4)
                              | (Return perr, s4) \<Rightarrow>
                                  (Continue, st\<lparr>UnderUpgrade := ConditionTrue\<rparr>, s4)))))
      else (Continue, st, s))"

definition rollingRestart_step :: "env \<Rightarrow> int32 \<Rightarrow> statefulSetNode \<Rightarrow> unit flow \<times> statefulSetNode" where
  "rollingRestart_step e index s =
     (let podName = podNameOf (name s) (index - 1) in
      case waitForNodeRejoinCluster e s of
        ((Some err, b), s1) \<Rightarrow> (Returned (), s1)
      | ((None, b), s1) \<Rightarrow>
          (case DeletePod e podName (Namespace (self s1)) s1 of
             (Some err, s2) \<Rightarrow> (Returned (), s2)
           | (None, s2) \<Rightarrow>
               (case waitForNodeLeaveCluster e s2 of
                  ((Some err, b'), s3) \<Rightarrow> (Returned (), s3)
                | ((None, b'), s3) \<Rightarrow>
                    (case setPartition e (index - 1) s3 of
                       (Panic, s4) \<Rightarrow> (Panicked, s4)
                     | (Return perr, s4) \<Rightarrow> (Continue, s4)))))"

text \<open>\<open>if node.isMissing() { node.create() }\<close>, the error of \<open>create\<close> being logged only.\<close>

definition createIfMissing :: "env \<Rightarrow> statefulSetNode \<Rightarrow> unit outcome \<times> statefulSetNode" where
  "createIfMissing e s =
     (case isMissing e s of
        (True, s0) \<Rightarrow>
          (case create e s0 of
             (Panic, s1) \<Rightarrow> (Panic, s1)
           | (Return cerr, s1) \<Rightarrow> (Return (), s1))
      | (False, s0) \<Rightarrow> (Return (), s0))"

definition rollingRestart_restarting :: "env \<Rightarrow> upgradeStatus \<Rightarrow> statefulSetNode \<Rightarrow> unit flow \<times> upgradeStatus \<times> statefulSetNode" where
  "rollingRestart_restarting e st s =
     (if UpgradePhase st = NodeRestarting then
        (case createIfMissing e s of
           (Panic, s1) \<Rightarrow> (Panicked, st, s1)
         | (Return u, s1) \<Rightarrow>
             (case partition_node e s1 of
                (Panic, s2) \<Rightarrow> (Panicked, st, s2)
              | (Return (ordinal, Some err), s2) \<Rightarrow> (Returned (), st, s2)
              | (Return (ordinal, None), s2) \<Rightarrow>
                  (case forDown (rollingRestart_step e) ordinal s2 of
                     (Panicked, s3) \<Rightarrow> (Panicked, st, s3)
                   | (Returned x, s3) \<Rightarrow> (Returned x, st, s3)
                   | (Continue, s3) \<Rightarrow>
                       (case waitForNodeRejoinCluster e s3 of
                          ((Some err, b), s4) \<Rightarrow> (Returned (), st, s4)
                        | ((None, b), s4) \<Rightarrow>
                            (Continue, setPhase RecoveringData st, refreshHashes e s4)))))
      else (Continue, st, s))"

definition rollingRestart :: "env \<Rightarrow> upgradeStatus \<Rightarrow> statefulSetNode \<Rightarrow> unit outcome \<times> upgradeStatus \<times> statefulSetNode" where
  "rollingRestart e st s =
     finish ()
       (andThen (andThen (andThen (rollingRestart_start e st s) restart_idle)
          (rollingRestart_restarting e)) recoveringData)"

subsection \<open>fullClusterRestart\<close>

definition fullClusterRestart_start :: "env \<Rightarrow> upgradeStatus \<Rightarrow> statefulSetNode \<Rightarrow> unit flow \<times> upgradeStatus \<times> statefulSetNode" where
  "fullClusterRestart_start e st s =
     (if UnderUpgrade st \<noteq> ConditionTrue then
        (case replicaCount e s of
           ((replicas, err), s1) \<Rightarrow>
             if err \<noteq> None then (Returned (), st, s1)
             else
               (case GetClusterNodeCount e (clusterName s1) (Namespace (self s1)) s1 of
                  ((sz, err'), s2) \<Rightarrow>
                    if err' \<noteq> None then (Returned (), st, s2)
                    else
                      (case setPartition e replicas s2 of
                         (Panic, s3) \<Rightarrow> (Panicked, st, s3)
                       | (Return perr, s3) \<Rightarrow>
                           (Continue, st\<lparr>UnderUpgrade := ConditionTrue\<rparr>, s3\<lparr>clusterSize := sz\<rparr>))))
      else (Continue, st, s))"

definition fullClusterRestart_step :: "env \<Rightarrow> int32 \<Rightarrow> statefulSetNode \<Rightarrow> unit flow \<times> statefulSetNode" where
  "fullClusterRestart_step e index s =
     (let podName = podNameOf (name s) (index - 1) in
      case DeletePod e podName (Namespace (self s)) s of
        (Some err, s1) \<Rightarrow> (Returned (), s1)
      | (None, s1) \<Rightarrow>
          (case waitForNodeLeaveCluster e s1 of
             ((Some err, b), s2) \<Rightarrow> (Returned (), s2)
           | ((None, b), s2) \<Rightarrow>
               (case setPartition e (index - 1) s2 of
                  (Panic, s3) \<Rightarrow> (Panicked, s3)
                | (Return perr, s3) \<Rightarrow> (Continue, s3))))"

definition fullClusterRestart_restarting :: "env \<Rightarrow> upgradeStatus \<Rightarrow> statefulSetNode \<Rightarrow> unit flow \<times> upgradeStatus \<times> statefulSetNode" where
  "fullClusterRestart_restarting e st s =
     (if UpgradePhase st = NodeRestarting then
        (case partition_node e s of
           (Panic, s1) \<Rightarrow> (Panicked, st, s1)
         | (Return (ordinal, Some err), s1) \<Rightarrow> (Returned (), st, s1)
         | (Return (ordinal, None), s1) \<Rightarrow>
             (case forDown (fullClusterRestart_step e) ordinal s1 of
                (Panicked, s2) \<Rightarrow> (Panicked, st, s2)
              | (Returned x, s2) \<Rightarrow> (Returned x, st, s2)
              | (Continue, s2) \<Rightarrow>
                  (Continue, setPhase RecoveringData st, refreshHashes e s2)))
      else (Continue, st, s))"

definition fullClusterRestart :: "env \<Rightarrow> upgradeStatus \<Rightarrow> statefulSetNode \<Rightarrow> unit outcome \<times> upgradeStatus \<times> statefulSetNode" where
  "fullClusterRestart e st s =
     finish ()
       (andThen (andThen (andThen (fullClusterRestart_start e st s) restart_idle)
          (fullClusterRestart_restarting e)) recoveringData)"

subsection \<open>update\<close>

definition update_start :: "env \<Rightarrow> upgradeStatus \<Rightarrow> statefulSetNode \<Rightarrow> error option flow \<times> upgradeStatus \<times> statefulSetNode" where
  "update_start e st s =
     (if UnderUpgrade st \<noteq> ConditionTrue then
        (case GetClusterHealthStatus e (clusterName s) (Namespace (self s)) s of
           ((status, herr), s1) \<Rightarrow>
             if status \<noteq> ''green'' then
               (Returned (Some (WaitingForRecovery (name s1) status)), st, s1)
             else
               (case GetClusterNodeCount e (clusterName s1) (Namespace (self s1)) s1 of
                  ((sz, err), s2) \<Rightarrow>
                    (case replicaCount e (s2\<lparr>clusterSize := sz\<rparr>) of
                       ((replicas, err'), s3) \<Rightarrow>
                         if err' \<noteq> None then
                           (Returned (Some (UnableToGetReplicas (name s3))), st, s3)
                         else
                           (case setPartition e replicas s3 of
                              (Panic, s4) \<Rightarrow> (Panicked, st, s4)
                            | (Return perr, s4) \<Rightarrow>
                                (Continue, st\<lparr>UnderUpgrade := ConditionTrue\<rparr>, s4)))))
      else (Continue, st, s))"

definition update_idle :: "env \<Rightarrow> upgradeStatus \<Rightarrow> statefulSetNode \<Rightarrow> error option flow \<times> upgradeStatus \<times> statefulSetNode" where
  "update_idle e st s =
     (if UpgradePhase st = Empty \<or> UpgradePhase st = ControllerUpdated then
        (case executeUpdate e s of
           (Panic, s1) \<Rightarrow> (Panicked, st, s1)
         | (Return (Some err), s1) \<Rightarrow> (Returned (Some err), st, s1)
         | (Return None, s1) \<Rightarrow> (Continue, setPhase NodeRestarting st, s1))
      else (Continue, st, s))"

definition update_step :: "env \<Rightarrow> int32 \<Rightarrow> statefulSetNode \<Rightarrow> error option flow \<times> statefulSetNode" where
  "update_step e index s =
     (case waitForNodeRejoinCluster e s of
        ((Some err, b), s1) \<Rightarrow> (Returned (Some (TimedOutRejoin (name s1))), s1)
      | ((None, b), s1) \<Rightarrow>
          (case setPartition e (index - 1) s1 of
             (Panic, s2) \<Rightarrow> (Panicked, s2)
           | (Return perr, s2) \<Rightarrow>
               (case waitForNodeLeaveCluster e s2 of
                  ((Some err, b'), s3) \<Rightarrow> (Returned (Some (TimedOutLeave (name s3))), s3)
                | ((None, b'), s3) \<Rightarrow> (Continue, s3))))"

definition update_restarting :: "env \<Rightarrow> upgradeStatus \<Rightarrow> statefulSetNode \<Rightarrow> error option flow \<times> upgradeStatus \<times> statefulSetNode" where
  "update_restarting e st s =
     (if UpgradePhase st = NodeRestarting then
        (case partition_node e s of
           (Panic, s1) \<Rightarrow> (Panicked, st, s1)
         | (Return (ordinal, Some err), s1) \<Rightarrow> (Returned (Some err), st, s1)
         | (Return (ordinal, None), s1) \<Rightarrow>
             (case forDown (update_step e) ordinal s1 of
                (Panicked, s2) \<Rightarrow> (Panicked, st, s2)
              | (Returned x, s2) \<Rightarrow> (Returned x, st, s2)
              | (Continue, s2) \<Rightarrow>
                  (case waitForNodeRejoinCluster e s2 of
                     ((Some err, b), s3) \<Rightarrow> (Returned (Some (TimedOutRejoin (name s3))), st, s3)
                   | ((None, b), s3) \<Rightarrow>
                       (Continue, setPhase RecoveringData st, refreshHashes e s3))))
      else (Continue, st, s))"

definition update :: "env \<Rightarrow> upgradeStatus \<Rightarrow> statefulSetNode \<Rightarrow> error option outcome \<times> upgradeStatus \<times> statefulSetNode" where
  "update e st s =
     finish None
       (andThen (andThen (andThen (update_start e st s) (update_idle e))
          (update_restarting e)) recoveringData)"

subsection \<open>Sequences of calls\<close>

datatype entryPoint = RollingRestart | FullClusterRestart | Update

text \<open>
  One call of an entry point on the status the reconciler holds: whether the call
  returned (for \<open>update\<close>, whatever it returned) or panicked, and the status and
  node afterwards.
\<close>

definition callEntry :: "env \<Rightarrow> entryPoint \<Rightarrow> upgradeStatus \<Rightarrow> statefulSetNode \<Rightarrow> bool \<times> upgradeStatus \<times> statefulSetNode" where
  "callEntry e c st s =
     (case c of
        RollingRestart \<Rightarrow> (case rollingRestart e st s of (r, st', s') \<Rightarrow> (r = Panic, st', s'))
      | FullClusterRestart \<Rightarrow> (case fullClusterRestart e st s of (r, st', s') \<Rightarrow> (r = Panic, st', s'))
      | Update \<Rightarrow> (case update e st s of (r, st', s') \<Rightarrow> (r = Panic, st', s')))"

text \<open>A sequence of calls; a panic ends the process and with it the sequence.\<close>

fun callSequence :: "env \<Rightarrow> entryPoint list \<Rightarrow> upgradeStatus \<Rightarrow> statefulSetNode \<Rightarrow> upgradeStatus \<times> statefulSetNode" where
  "callSequence e [] st s = (st, s)"
| "callSequence e (c # cs) st s =
     (case callEntry e c st s of
        (True, st', s') \<Rightarrow> (st', s')
      | (False, st', s') \<Rightarrow> callSequence e cs st' s')"

section \<open>Notions used in the statements\<close>

text \<open>The node after the calls \<open>rs\<close> have been recorded.\<close>

definition emits :: "request list \<Rightarrow> statefulSetNode \<Rightarrow> statefulSetNode" where
  "emits rs s = s\<lparr>trace := trace s @ rs\<rparr>"

text \<open>The environment with the errors of the node count fetch erased.\<close>

definition dropFetchErrors :: "env \<Rightarrow> env" where
  "dropFetchErrors e = e\<lparr>nodeCount := (\<lambda>n. (fst (nodeCount e n), None))\<rparr>"

text \<open>The object the API server holds for the node, and its partition.\<close>

definition liveObject :: "statefulSetNode \<Rightarrow> statefulSet option" where
  "liveObject s = store s (Namespace (self s), Name (self s))"

definition livePartition :: "statefulSetNode \<Rightarrow> int32 option" where
  "livePartition s = (case liveObject s of None \<Rightarrow> None | Some obj \<Rightarrow> Partition obj)"

subsection \<open>A concrete cluster\<close>

text \<open>
  An environment in which every API call succeeds, the cluster is green, and the
  node count answered to the call at clock \<open>n\<close> is \<open>counts n\<close>.
  Modelled from the spec: \<open>elasticsearch.UpdatePodTemplateSpec\<close> is not among the
  sources; here it is the comparison the spec describes (true iff the two templates
  differ field for field), bringing the first template to the second.
\<close>

definition calmEnv :: "(nat \<Rightarrow> int32) \<Rightarrow> env" where
  "calmEnv counts =
     \<lparr>getErr = (\<lambda>n. None), updateErr = (\<lambda>n. None), createErr = (\<lambda>n. None),
      deletePodErr = (\<lambda>n. None), resourceVersionAt = (\<lambda>n. ''2''),
      health = (\<lambda>n. (''green'', None)), nodeCount = (\<lambda>n. (counts n, None)),
      configmapHashAt = (\<lambda>n. ''cm''), secretHashAt = (\<lambda>n. ''sec''),
      UpdatePodTemplateSpec = (\<lambda>nm actual desired. (actual \<noteq> desired, desired))\<rparr>"

definition exampleSet :: statefulSet where
  "exampleSet = \<lparr>Name = ''es'', Namespace = ''ns'', ResourceVersion = ''1'',
     Replicas = Some 2, Template = \<lparr>Image = ''img'', Env = []\<rparr>,
     Partition = Some 2, StatusReplicas = 2\<rparr>"

definition exampleNode :: statefulSetNode where
  "exampleNode = \<lparr>self = exampleSet, configmapHash = [], secretHash = [],
     clusterName = ''es'', clusterSize = 3,
     store = [(''ns'', ''es'') \<mapsto> exampleSet], trace = []\<rparr>"

definition idleStatus :: upgradeStatus where
  "idleStatus = \<lparr>UnderUpgrade = ConditionEmpty, UpgradePhase = Empty, phaseHistory = []\<rparr>"

definition key :: "statefulSetNode \<Rightarrow> string \<times> string" where
  "key s = (Namespace (self s), Name (self s))"

definition partitionRequest :: "int32 \<Rightarrow> request \<Rightarrow> bool" where
  "partitionRequest n r =
     (case r of ReqGet a b \<Rightarrow> True | ReqUpdate obj \<Rightarrow> Partition obj = Some n | _ \<Rightarrow> False)"

definition partitionWritten :: "int32 \<Rightarrow> statefulSetNode \<Rightarrow> statefulSetNode \<Rightarrow> bool" where
  "partitionWritten n s s' =
     (clusterSize s' = clusterSize s \<and> clusterName s' = clusterName s \<and>
      key s' = key s \<and>
      (store s' = store s \<or>
         (\<exists>obj live. store s (key s) = Some live \<and> store s' = (store s)(key s \<mapsto> obj) \<and> Partition obj = Some n)) \<and>
      (\<exists>rs. trace s' = trace s @ rs \<and> list_all (partitionRequest n) rs))"

definition replicasRequest :: "int32 \<Rightarrow> request \<Rightarrow> bool" where
  "replicasRequest n r =
     (case r of ReqGet a b \<Rightarrow> True | ReqUpdate obj \<Rightarrow> Replicas obj = Some n | _ \<Rightarrow> False)"

definition replicasWritten :: "int32 \<Rightarrow> statefulSetNode \<Rightarrow> statefulSetNode \<Rightarrow> bool" where
  "replicasWritten n s s' =
     (key s' = key s \<and>
      (store s' = store s \<or>
         (\<exists>obj live. store s (key s) = Some live \<and> store s' = (store s)(key s \<mapsto> obj) \<and>
            Replicas obj = Some n \<and> StatusReplicas obj = StatusReplicas live)))"




text \<open>The transitions of the upgrade phase the spec allows.\<close>

fun phaseStep :: "upgradePhase \<Rightarrow> upgradePhase \<Rightarrow> bool" where
  "phaseStep Empty NodeRestarting = True"
| "phaseStep ControllerUpdated NodeRestarting = True"
| "phaseStep NodeRestarting RecoveringData = True"
| "phaseStep RecoveringData ControllerUpdated = True"
| "phaseStep p q = False"

text \<open>The phases assigned between two statuses, read off the history.\<close>

definition phasesSince :: "upgradeStatus \<Rightarrow> upgradeStatus \<Rightarrow> upgradePhase list" where
  "phasesSince st st' = drop (length (phaseHistory st)) (phaseHistory st')"

text \<open>
  From \<open>st\<close> to \<open>st'\<close> the phase was assigned only along allowed transitions, and
  \<open>st'\<close> holds the last phase assigned.
\<close>

definition advances :: "upgradeStatus \<Rightarrow> upgradeStatus \<Rightarrow> bool" where
  "advances st st' =
     (phaseHistory st' = phaseHistory st @ phasesSince st st' \<and>
      successively phaseStep (UpgradePhase st # phasesSince st st') \<and>
      UpgradePhase st' = last (UpgradePhase st # phasesSince st st'))"

text \<open>Running \<open>body\<close> over a list of ordinals fixed in advance, stopping at the first exit.\<close>

fun forEach :: "(int32 \<Rightarrow> statefulSetNode \<Rightarrow> 'r flow \<times> statefulSetNode) \<Rightarrow> int32 list \<Rightarrow> statefulSetNode \<Rightarrow> 'r flow \<times> statefulSetNode" where
  "forEach body [] s = (Continue, s)"
| "forEach body (i # is) s =
     (case body i s of
        (Continue, s') \<Rightarrow> forEach body is s'
      | (Returned x, s') \<Rightarrow> (Returned x, s')
      | (Panicked, s') \<Rightarrow> (Panicked, s'))"

text \<open>The ordinals \<open>p, p - 1, ..., 1\<close>.\<close>

definition ordinalsFrom :: "int32 \<Rightarrow> int32 list" where
  "ordinalsFrom p = rev (map int [1..<Suc (nat p)])"

text \<open>The calls recorded between two states of the node.\<close>

definition requestsSince :: "statefulSetNode \<Rightarrow> statefulSetNode \<Rightarrow> request list" where
  "requestsSince s s' = drop (length (trace s)) (trace s')"

text \<open>The partition values carried by the update requests of a trace, in order.\<close>

fun writtenPartitions :: "request list \<Rightarrow> int32 list" where
  "writtenPartitions [] = []"
| "writtenPartitions (ReqUpdate obj # rs) =
     (case Partition obj of None \<Rightarrow> writtenPartitions rs | Some p \<Rightarrow> p # writtenPartitions rs)"
| "writtenPartitions (r # rs) = writtenPartitions rs"

text \<open>The pods deleted by the requests of a trace, in order.\<close>

fun deletedPods :: "request list \<Rightarrow> string list" where
  "deletedPods [] = []"
| "deletedPods (ReqDeletePod p ns # rs) = p # deletedPods rs"
| "deletedPods (r # rs) = deletedPods rs"

text \<open>What one step of a loop at partition target \<open>n\<close> may send.\<close>

definition stepRequest :: "int32 \<Rightarrow> request \<Rightarrow> bool" where
  "stepRequest n r =
     (case r of ReqUpdate obj \<Rightarrow> Partition obj = Some n | ReqCreate obj \<Rightarrow> False | _ \<Rightarrow> True)"

definition stepTrace :: "int32 \<Rightarrow> statefulSetNode \<Rightarrow> statefulSetNode \<Rightarrow> bool" where
  "stepTrace n s s' =
     (key s' = key s \<and> clusterName s' = clusterName s \<and>
      trace s' = trace s @ requestsSince s s' \<and> list_all (stepRequest n) (requestsSince s s'))"

definition loopTrace :: "int32 \<Rightarrow> statefulSetNode \<Rightarrow> statefulSetNode \<Rightarrow> bool" where
  "loopTrace hi s s' =
     (key s' = key s \<and> clusterName s' = clusterName s \<and>
      trace s' = trace s @ requestsSince s s' \<and>
      sorted_wrt (\<ge>) (writtenPartitions (requestsSince s s')) \<and>
      list_all (\<lambda>p. 0 \<le> p \<and> p < hi) (writtenPartitions (requestsSince s s')))"

(*DEFS*)

section \<open>Basic facts\<close>

lemma emit_simps [simp]:
  "self (emit r s) = self s" "clusterName (emit r s) = clusterName s"
  "clusterSize (emit r s) = clusterSize s" "store (emit r s) = store s"
  "configmapHash (emit r s) = configmapHash s" "secretHash (emit r s) = secretHash s"
  "trace (emit r s) = trace s @ [r]" "clock (emit r s) = Suc (clock s)"
  by (simp_all add: emit_def clock_def)

lemma emits_simps [simp]:
  "self (emits rs s) = self s" "clusterName (emits rs s) = clusterName s"
  "clusterSize (emits rs s) = clusterSize s" "store (emits rs s) = store s"
  "configmapHash (emits rs s) = configmapHash s" "secretHash (emits rs s) = secretHash s"
  "trace (emits rs s) = trace s @ rs" "clock (emits rs s) = clock s + length rs"
  by (simp_all add: emits_def clock_def)

lemma emits_emit: "emits rs (emit r s) = emits (r # rs) s"
  by (simp add: emits_def emit_def)

lemma emit_as_emits: "emit r s = emits [r] s"
  by (simp add: emits_def emit_def)

section \<open>Waiting for cluster membership\<close>

lemma rejoinCondition_eq:
  "rejoinCondition e s =
     ((clusterSize s \<le> fst (nodeCount e (clock s)), None),
      emit (ReqNodeCount (clusterName s) (Namespace (self s))) s)"
  by (simp add: rejoinCondition_def GetClusterNodeCount_def split: prod.splits)

lemma leaveCondition_eq:
  "leaveCondition e s =
     ((clusterSize s > fst (nodeCount e (clock s)), None),
      emit (ReqNodeCount (clusterName s) (Namespace (self s))) s)"
  by (simp add: leaveCondition_def GetClusterNodeCount_def split: prod.splits)

lemma wait_Poll_done:
  assumes c: "\<And>s. c s = ((d (clusterSize s) (fst (nodeCount e (clock s))), None),
                 emit (ReqNodeCount (clusterName s) (Namespace (self s))) s)"
  shows "k < n \<Longrightarrow> (\<forall>j<k. \<not> d (clusterSize s) (fst (nodeCount e (clock s + j)))) \<Longrightarrow>
   d (clusterSize s) (fst (nodeCount e (clock s + k))) \<Longrightarrow>
   wait_Poll n c s = (None, emits (replicate (Suc k) (ReqNodeCount (clusterName s) (Namespace (self s)))) s)"
proof (induction n arbitrary: k s)
  case 0
  then show ?case by simp
next
  case (Suc n)
  show ?case
  proof (cases k)
    case 0
    with Suc.prems show ?thesis by (simp add: c [of s] emit_as_emits)
  next
    case (Suc k')
    let ?r = "ReqNodeCount (clusterName s) (Namespace (self s))"
    have nd: "\<not> d (clusterSize s) (fst (nodeCount e (clock s)))"
      using Suc.prems(2) Suc by force
    have "wait_Poll n c (emit ?r s) = (None, emits (replicate (Suc k') ?r) (emit ?r s))"
      using Suc.IH [of k' "emit ?r s"] Suc.prems Suc by force
    then show ?thesis using nd Suc by (simp add: c [of s] emits_emit)
  qed
qed

lemma wait_Poll_timeout:
  assumes c: "\<And>s. c s = ((d (clusterSize s) (fst (nodeCount e (clock s))), None),
                 emit (ReqNodeCount (clusterName s) (Namespace (self s))) s)"
  shows "(\<forall>j<n. \<not> d (clusterSize s) (fst (nodeCount e (clock s + j)))) \<Longrightarrow>
   wait_Poll n c s = (Some ErrWaitTimeout, emits (replicate n (ReqNodeCount (clusterName s) (Namespace (self s)))) s)"
proof (induction n arbitrary: s)
  case 0
  then show ?case by (simp add: emits_def)
next
  case (Suc n)
  let ?r = "ReqNodeCount (clusterName s) (Namespace (self s))"
  have nd: "\<not> d (clusterSize s) (fst (nodeCount e (clock s)))"
    using Suc.prems by force
  have "wait_Poll n c (emit ?r s) = (Some ErrWaitTimeout, emits (replicate n ?r) (emit ?r s))"
    using Suc.IH [of "emit ?r s"] Suc.prems by force
  then show ?case using nd by (simp add: c [of s] emits_emit)
qed

lemma pollTries_60: "pollTries pollInterval pollTimeout = 60"
  by (simp add: pollTries_def pollInterval_def pollTimeout_def)

text \<open>
  Claim C8. \<open>waitForNodeRejoinCluster\<close> tries the node count once per second of
  the sixty-second ceiling, that is, up to sixty times. It returns a nil error and
  \<open>true\<close> at the first try \<open>k\<close> whose count is at least \<open>clusterSize\<close>, having
  made \<open>k + 1\<close> fetches; when none of the sixty tries sees such a count it returns
  the poll's timeout error and \<open>false\<close>. \<open>waitForNodeLeaveCluster\<close> does the same
  with the test "count strictly below \<open>clusterSize\<close>".
\<close>

theorem membership_waits:
  "(k < 60 \<and> (\<forall>j<k. \<not> clusterSize s \<le> fst (nodeCount e (clock s + j))) \<and>
      clusterSize s \<le> fst (nodeCount e (clock s + k)) \<longrightarrow>
      waitForNodeRejoinCluster e s =
        ((None, True), emits (replicate (Suc k) (ReqNodeCount (clusterName s) (Namespace (self s)))) s)) \<and>
   ((\<forall>j<60. \<not> clusterSize s \<le> fst (nodeCount e (clock s + j))) \<longrightarrow>
      waitForNodeRejoinCluster e s =
        ((Some ErrWaitTimeout, False), emits (replicate 60 (ReqNodeCount (clusterName s) (Namespace (self s)))) s)) \<and>
   (k < 60 \<and> (\<forall>j<k. \<not> fst (nodeCount e (clock s + j)) < clusterSize s) \<and>
      fst (nodeCount e (clock s + k)) < clusterSize s \<longrightarrow>
      waitForNodeLeaveCluster e s =
        ((None, True), emits (replicate (Suc k) (ReqNodeCount (clusterName s) (Namespace (self s)))) s)) \<and>
   ((\<forall>j<60. \<not> fst (nodeCount e (clock s + j)) < clusterSize s) \<longrightarrow>
      waitForNodeLeaveCluster e s =
        ((Some ErrWaitTimeout, False), emits (replicate 60 (ReqNodeCount (clusterName s) (Namespace (self s)))) s))"
proof (intro conjI impI)
  assume "k < 60 \<and> (\<forall>j<k. \<not> clusterSize s \<le> fst (nodeCount e (clock s + j))) \<and>
      clusterSize s \<le> fst (nodeCount e (clock s + k))"
  then show "waitForNodeRejoinCluster e s =
        ((None, True), emits (replicate (Suc k) (ReqNodeCount (clusterName s) (Namespace (self s)))) s)"
    using wait_Poll_done [of "rejoinCondition e" "\<lambda>a b. a \<le> b" e k 60 s]
    by (simp add: waitForNodeRejoinCluster_def pollTries_60 rejoinCondition_eq)
next
  assume "\<forall>j<60. \<not> clusterSize s \<le> fst (nodeCount e (clock s + j))"
  then show "waitForNodeRejoinCluster e s =
        ((Some ErrWaitTimeout, False), emits (replicate 60 (ReqNodeCount (clusterName s) (Namespace (self s)))) s)"
    using wait_Poll_timeout [of "rejoinCondition e" "\<lambda>a b. a \<le> b" e 60 s]
    by (simp add: waitForNodeRejoinCluster_def pollTries_60 rejoinCondition_eq)
next
  assume "k < 60 \<and> (\<forall>j<k. \<not> fst (nodeCount e (clock s + j)) < clusterSize s) \<and>
      fst (nodeCount e (clock s + k)) < clusterSize s"
  then show "waitForNodeLeaveCluster e s =
        ((None, True), emits (replicate (Suc k) (ReqNodeCount (clusterName s) (Namespace (self s)))) s)"
    using wait_Poll_done [of "leaveCondition e" "\<lambda>a b. b < a" e k 60 s]
    by (simp add: waitForNodeLeaveCluster_def pollTries_60 leaveCondition_eq)
next
  assume "\<forall>j<60. \<not> fst (nodeCount e (clock s + j)) < clusterSize s"
  then show "waitForNodeLeaveCluster e s =
        ((Some ErrWaitTimeout, False), emits (replicate 60 (ReqNodeCount (clusterName s) (Namespace (self s)))) s)"
    using wait_Poll_timeout [of "leaveCondition e" "\<lambda>a b. b < a" e 60 s]
    by (simp add: waitForNodeLeaveCluster_def pollTries_60 leaveCondition_eq)
qed

lemma calmEnv_simps [simp]:
  "getErr (calmEnv c) n = None" "updateErr (calmEnv c) n = None"
  "createErr (calmEnv c) n = None" "deletePodErr (calmEnv c) n = None"
  "health (calmEnv c) n = (''green'', None)" "nodeCount (calmEnv c) n = (c n, None)"
  by (simp_all add: calmEnv_def)

text \<open>
  With three nodes recorded and three observed, rejoining succeeds at the first try
  and leaving times out; with two observed it is the other way round.
\<close>

theorem membership_waits_witness:
  "waitForNodeRejoinCluster (calmEnv (\<lambda>n. 3)) exampleNode =
     ((None, True), emits [ReqNodeCount ''es'' ''ns''] exampleNode) \<and>
   waitForNodeLeaveCluster (calmEnv (\<lambda>n. 3)) exampleNode =
     ((Some ErrWaitTimeout, False), emits (replicate 60 (ReqNodeCount ''es'' ''ns'')) exampleNode) \<and>
   waitForNodeLeaveCluster (calmEnv (\<lambda>n. 2)) exampleNode =
     ((None, True), emits [ReqNodeCount ''es'' ''ns''] exampleNode) \<and>
   waitForNodeRejoinCluster (calmEnv (\<lambda>n. 2)) exampleNode =
     ((Some ErrWaitTimeout, False), emits (replicate 60 (ReqNodeCount ''es'' ''ns'')) exampleNode)"
  using membership_waits [of 0 exampleNode "calmEnv (\<lambda>n. 3)"]
        membership_waits [of 0 exampleNode "calmEnv (\<lambda>n. 2)"]
  by (simp add: exampleNode_def exampleSet_def)


lemma dropFetchErrors_nodeCount [simp]:
  "fst (nodeCount (dropFetchErrors e) n) = fst (nodeCount e n)"
  by (simp add: dropFetchErrors_def)


section \<open>The start of an upgrade cycle\<close>

text \<open>
  Claim C5. When \<open>update\<close> is called on a status that is not under upgrade and the
  cluster health is anything but green, it returns the error "Waiting for cluster to
  be fully recovered ...", leaves the status (phase and under-upgrade flag) as it
  was, and the only call it has made is the health query: no object is fetched,
  written or deleted.
\<close>

theorem update_unhealthy_aborts:
  "UnderUpgrade st \<noteq> ConditionTrue \<Longrightarrow> fst (health e (clock s)) \<noteq> ''green'' \<Longrightarrow>
   update e st s =
     (Return (Some (WaitingForRecovery (name s) (fst (health e (clock s))))), st,
      emit (ReqHealth (clusterName s) (Namespace (self s))) s)"
proof -
  assume a: "UnderUpgrade st \<noteq> ConditionTrue" "fst (health e (clock s)) \<noteq> ''green''"
  obtain status herr where h: "health e (clock s) = (status, herr)"
    by (cases "health e (clock s)")
  with a have "update_start e st s =
      (Returned (Some (WaitingForRecovery (name s) status)), st,
       emit (ReqHealth (clusterName s) (Namespace (self s))) s)"
    by (simp add: update_start_def GetClusterHealthStatus_def name_def)
  with h show ?thesis
    by (simp add: update_def andThen_def finish_def)
qed

theorem update_unhealthy_aborts_witness:
  "UnderUpgrade idleStatus \<noteq> ConditionTrue \<and>
   update ((calmEnv (\<lambda>n. 3))\<lparr>health := (\<lambda>n. (''yellow'', None))\<rparr>) idleStatus exampleNode =
     (Return (Some (WaitingForRecovery ''es'' ''yellow'')), idleStatus,
      emit (ReqHealth ''es'' ''ns'') exampleNode)"
  using update_unhealthy_aborts [of idleStatus "(calmEnv (\<lambda>n. 3))\<lparr>health := (\<lambda>n. (''yellow'', None))\<rparr>" exampleNode]
  by (simp add: idleStatus_def exampleNode_def exampleSet_def name_def)

lemma partitionWritten_refl: "partitionWritten n s s"
  by (simp add: partitionWritten_def)

lemma partitionWritten_trans:
  "partitionWritten n a b \<Longrightarrow> partitionWritten n b c \<Longrightarrow> partitionWritten n a c"
  unfolding partitionWritten_def
  apply (elim conjE exE)
  apply (intro conjI)
      apply simp
     apply simp
    apply simp
   apply (elim disjE exE conjE)
      apply simp
     apply (rule disjI2) apply force
    apply (rule disjI2) apply force
   apply (rule disjI2) apply (force)
  apply (rule_tac x="rs @ rsa" in exI) apply simp
  done

lemma retryLoop_rel:
  assumes step: "\<And>c s. R s (snd (snd (fn c s)))"
    and refl: "\<And>s. R s s"
    and trans: "\<And>a b c. R a b \<Longrightarrow> R b c \<Longrightarrow> R a c"
  shows "R s (snd (snd (retryLoop k fn lst c s)))"
proof (induction k arbitrary: lst c s)
  case 0
  show ?case by (simp add: refl)
next
  case (Suc k)
  obtain r c' s' where f: "fn c s = (r, c', s')" by (cases "fn c s")
  have a: "R s s'" using step [of s c] f by simp
  show ?case
  proof (cases r)
    case Panic
    with f a show ?thesis by simp
  next
    case (Return x)
    show ?thesis
    proof (cases x)
      case None
      with f a Return show ?thesis by simp
    next
      case (Some err)
      show ?thesis
      proof (cases "IsConflict err")
        case True
        have "R s' (snd (snd (retryLoop k fn (Some err) c' s')))" by (rule Suc.IH)
        with a have "R s (snd (snd (retryLoop k fn (Some err) c' s')))" by (rule trans)
        with f Return Some True show ?thesis by simp
      next
        case False
        with f a Return Some show ?thesis by simp
      qed
    qed
  qed
qed

lemma retryLoop_post_Some:
  assumes post: "\<And>c s c' s'. fn c s = (Return None, c', s') \<Longrightarrow> Q s'"
  shows "retryLoop k fn (Some x) c s = (Return None, c', s') \<Longrightarrow> Q s'"
proof (induction k arbitrary: x c s)
  case 0
  then show ?case by simp
next
  case (Suc k)
  obtain r c1 s1 where f: "fn c s = (r, c1, s1)" by (cases "fn c s")
  show ?case
  proof (cases r)
    case Panic
    with f Suc.prems show ?thesis by simp
  next
    case (Return y)
    show ?thesis
    proof (cases y)
      case None
      with f Return Suc.prems have "s1 = s'" by simp
      with post [of c s c1 s1] f Return None show ?thesis by simp
    next
      case (Some err)
      with f Return Suc.prems Suc.IH [of err c1 s1] show ?thesis
        by (simp split: if_splits)
    qed
  qed
qed

lemma retryLoop_post:
  assumes post: "\<And>c s c' s'. fn c s = (Return None, c', s') \<Longrightarrow> Q s'"
  shows "retryLoop (Suc k) fn lst c s = (Return None, c', s') \<Longrightarrow> Q s'"
proof -
  assume a: "retryLoop (Suc k) fn lst c s = (Return None, c', s')"
  obtain r c1 s1 where f: "fn c s = (r, c1, s1)" by (cases "fn c s")
  show ?thesis
  proof (cases r)
    case Panic
    with f a show ?thesis by simp
  next
    case (Return y)
    show ?thesis
    proof (cases y)
      case None
      with f Return a have "s1 = s'" by simp
      with post [of c s c1 s1] f Return None show ?thesis by simp
    next
      case (Some err)
      with f Return a retryLoop_post_Some [of fn Q k err c1 s1 c' s', OF post] show ?thesis
        by (simp split: if_splits)
    qed
  qed
qed


lemma setPartition_try_written:
  "partitionWritten n s (snd (snd (setPartition_try e n c s)))"
  by (auto simp add: setPartition_try_def client_Get_def client_Update_def partitionWritten_def
        key_def partitionRequest_def Let_def
      split: option.splits)

lemma replicasWritten_refl: "replicasWritten n s s"
  by (simp add: replicasWritten_def)

lemma replicasWritten_trans:
  "replicasWritten n a b \<Longrightarrow> replicasWritten n b c \<Longrightarrow> replicasWritten n a c"
  unfolding replicasWritten_def
  apply (elim conjE exE)
  apply (intro conjI)
   apply simp
  apply (elim disjE exE conjE)
     apply simp
    apply (rule disjI2) apply force
   apply (rule disjI2) apply force
  apply (rule disjI2) apply force
  done

lemma setPartition_written: "partitionWritten n s (snd (setPartition e n s))"
proof -
  have "partitionWritten n s (snd (snd (RetryOnConflict (setPartition_try e n) c s)))" for c
    unfolding RetryOnConflict_def
    by (rule retryLoop_rel [where R = "partitionWritten n"])
       (simp_all add: setPartition_try_written partitionWritten_refl,
        erule (1) partitionWritten_trans)
  then show ?thesis
    apply (simp add: setPartition_def split: prod.splits outcome.splits option.splits)
    apply (metis snd_conv)
    done
qed

lemma setPartition_try_post:
  "setPartition_try e n c s = (Return None, c', s') \<Longrightarrow> livePartition s' = Some n"
  by (auto simp add: setPartition_try_def client_Get_def client_Update_def livePartition_def
        liveObject_def Let_def
      split: option.splits if_splits)

lemma setPartition_post:
  "setPartition e n s = (Return None, s') \<Longrightarrow> livePartition s' = Some n"
proof -
  assume a: "setPartition e n s = (Return None, s')"
  then obtain c' where "RetryOnConflict (setPartition_try e n) (- 1) s = (Return None, c', s')"
    by (auto simp add: setPartition_def split: prod.splits outcome.splits option.splits)
  then have "retryLoop (Suc 4) (setPartition_try e n) None (- 1) s = (Return None, c', s')"
    by (simp add: RetryOnConflict_def DefaultRetry_Steps_def eval_nat_numeral)
  then show ?thesis
    by (rule retryLoop_post [where Q = "\<lambda>s. livePartition s = Some n", rotated])
       (rule setPartition_try_post)
qed




lemma setReplicaCount_try_written:
  "replicasWritten n s (snd (snd (setReplicaCount_try e n c s)))"
  by (auto simp add: setReplicaCount_try_def client_Get_def client_Update_def replicasWritten_def
        key_def Let_def
      split: option.splits)

lemma setReplicaCount_written: "replicasWritten n s (snd (setReplicaCount e n s))"
proof -
  have "replicasWritten n s (snd (snd (RetryOnConflict (setReplicaCount_try e n) c s)))" for c
    unfolding RetryOnConflict_def
    by (rule retryLoop_rel [where R = "replicasWritten n"])
       (simp_all add: setReplicaCount_try_written replicasWritten_refl,
        erule (1) replicasWritten_trans)
  then show ?thesis
    apply (simp add: setReplicaCount_def split: prod.splits outcome.splits option.splits)
    apply (metis snd_conv)
    done
qed

lemma setReplicaCount_try_post:
  "setReplicaCount_try e n c s = (Return None, c', s') \<Longrightarrow>
   (\<exists>obj. liveObject s' = Some obj \<and> Replicas obj = Some n)"
  by (auto simp add: setReplicaCount_try_def client_Get_def client_Update_def
        liveObject_def Let_def
      split: option.splits if_splits)

lemma setReplicaCount_post:
  "setReplicaCount e n s = (Return None, s') \<Longrightarrow>
   (\<exists>obj. liveObject s' = Some obj \<and> Replicas obj = Some n)"
proof -
  assume a: "setReplicaCount e n s = (Return None, s')"
  then obtain c' where "RetryOnConflict (setReplicaCount_try e n) (- 1) s = (Return None, c', s')"
    by (auto simp add: setReplicaCount_def split: prod.splits outcome.splits option.splits)
  then have "retryLoop (Suc 4) (setReplicaCount_try e n) None (- 1) s = (Return None, c', s')"
    by (simp add: RetryOnConflict_def DefaultRetry_Steps_def eval_nat_numeral)
  then show ?thesis
    by (rule retryLoop_post [where Q = "\<lambda>s. \<exists>obj. liveObject s = Some obj \<and> Replicas obj = Some n", rotated])
       (rule setReplicaCount_try_post)
qed

lemma partition_node_reads:
  "partition_node e s = (Return (p, None), s') \<Longrightarrow> livePartition s = Some p"
  by (auto simp add: partition_node_def client_Get_def livePartition_def liveObject_def Let_def
      split: option.splits)

lemma replicaCount_reads:
  "replicaCount e s = ((r, None), s') \<Longrightarrow> (\<exists>obj. liveObject s = Some obj \<and> r = StatusReplicas obj)"
  by (auto simp add: replicaCount_def client_Get_def liveObject_def Let_def
      split: option.splits)

lemma replicasWritten_status:
  "replicasWritten n s s' \<Longrightarrow> liveObject s' = Some obj' \<Longrightarrow>
   (\<exists>live. liveObject s = Some live \<and> StatusReplicas obj' = StatusReplicas live)"
  by (auto simp add: replicasWritten_def liveObject_def key_def split: if_splits)

section \<open>Round trips through the API server\<close>

text \<open>
  Claim C4, as amended. When \<open>setPartition n\<close> returns nil and the following
  \<open>partition()\<close> succeeds, it returns \<open>n\<close>. \<open>setReplicaCount n\<close> writes
  \<open>Spec.Replicas\<close>, and \<open>replicaCount()\<close> reads \<open>Status.Replicas\<close>: when
  \<open>setReplicaCount n\<close> returns nil and the following \<open>replicaCount()\<close> succeeds,
  the live object has \<open>Spec.Replicas = n\<close>, and the value returned is the live
  object's \<open>Status.Replicas\<close>, which is what it was before the write.
\<close>

theorem partition_roundtrip:
  "(fst (setPartition e n s) = Return None \<and>
      fst (partition_node e (snd (setPartition e n s))) = Return (p, None) \<longrightarrow> p = n) \<and>
   (fst (setReplicaCount e n s) = Return None \<and>
      fst (replicaCount e (snd (setReplicaCount e n s))) = (r, None) \<longrightarrow>
      (\<exists>obj. liveObject (snd (setReplicaCount e n s)) = Some obj \<and> Replicas obj = Some n \<and>
         r = StatusReplicas obj) \<and>
      (\<exists>live. liveObject s = Some live \<and> r = StatusReplicas live))"
proof -
  have part1: "p = n"
    if a: "fst (setPartition e n s) = Return None \<and>
      fst (partition_node e (snd (setPartition e n s))) = Return (p, None)"
  proof -
    have "livePartition (snd (setPartition e n s)) = Some n"
      using a setPartition_post [of e n s "snd (setPartition e n s)"] by (simp add: prod_eq_iff)
    moreover have "livePartition (snd (setPartition e n s)) = Some p"
      using a partition_node_reads [of e "snd (setPartition e n s)" p
              "snd (partition_node e (snd (setPartition e n s)))"]
      by (simp add: prod_eq_iff)
    ultimately show ?thesis by simp
  qed
  have part2: "(\<exists>obj. liveObject (snd (setReplicaCount e n s)) = Some obj \<and> Replicas obj = Some n \<and>
         r = StatusReplicas obj) \<and>
      (\<exists>live. liveObject s = Some live \<and> r = StatusReplicas live)"
    if a: "fst (setReplicaCount e n s) = Return None \<and>
      fst (replicaCount e (snd (setReplicaCount e n s))) = (r, None)"
  proof -
    let ?s1 = "snd (setReplicaCount e n s)"
    obtain obj where o: "liveObject ?s1 = Some obj" "Replicas obj = Some n"
      using a setReplicaCount_post [of e n s ?s1] by (auto simp add: prod_eq_iff)
    obtain obj' where o': "liveObject ?s1 = Some obj'" "r = StatusReplicas obj'"
      using a replicaCount_reads [of e ?s1 r "snd (replicaCount e ?s1)"]
      by (auto simp add: prod_eq_iff)
    from o o' have eq: "obj' = obj" by simp
    obtain live where l: "liveObject s = Some live" "StatusReplicas obj = StatusReplicas live"
      using replicasWritten_status [OF setReplicaCount_written o(1)] by blast
    show ?thesis using o o' eq l by auto
  qed
  show ?thesis using part1 part2 by blast
qed

lemmas eval_defs = setReplicaCount_def setPartition_def RetryOnConflict_def DefaultRetry_Steps_def
  eval_nat_numeral setReplicaCount_try_def setPartition_try_def client_Get_def client_Update_def
  replicaCount_def partition_node_def exampleNode_def exampleSet_def calmEnv_def clock_def emit_def Let_def
  liveObject_def

text \<open>
  Claim C4 as stated fails for the replica count: the live object has two replicas in
  its spec and its status; \<open>setReplicaCount 5\<close> succeeds, and \<open>replicaCount()\<close>
  then returns 2.
\<close>

theorem replica_roundtrip_counterexample:
  "fst (setReplicaCount (calmEnv (\<lambda>n. 3)) 5 exampleNode) = Return None \<and>
   fst (replicaCount (calmEnv (\<lambda>n. 3)) (snd (setReplicaCount (calmEnv (\<lambda>n. 3)) 5 exampleNode))) = (2, None)"
  by (simp add: eval_defs)

text \<open>
  The same calls on the concrete cluster: the partition written is read back, the
  replica count read back is the status value.
\<close>

theorem partition_roundtrip_witness:
  "fst (setPartition (calmEnv (\<lambda>n. 3)) 1 exampleNode) = Return None \<and>
   fst (partition_node (calmEnv (\<lambda>n. 3)) (snd (setPartition (calmEnv (\<lambda>n. 3)) 1 exampleNode))) = Return (1, None) \<and>
   fst (setReplicaCount (calmEnv (\<lambda>n. 3)) 5 exampleNode) = Return None \<and>
   fst (replicaCount (calmEnv (\<lambda>n. 3)) (snd (setReplicaCount (calmEnv (\<lambda>n. 3)) 5 exampleNode))) = (2, None) \<and>
   (\<exists>obj. liveObject (snd (setReplicaCount (calmEnv (\<lambda>n. 3)) 5 exampleNode)) = Some obj \<and>
      Replicas obj = Some 5 \<and> 2 = StatusReplicas obj) \<and>
   (\<exists>live. liveObject exampleNode = Some live \<and> 2 = StatusReplicas live)"
  using partition_roundtrip [of "calmEnv (\<lambda>n. 3)" 1 exampleNode 1]
        partition_roundtrip [of "calmEnv (\<lambda>n. 3)" 5 exampleNode _ 2]
  by (simp add: eval_defs)


lemma clock_updates [simp]:
  "clock (s\<lparr>clusterSize := x\<rparr>) = clock s" "clock (s\<lparr>self := y\<rparr>) = clock s"
  by (simp_all add: clock_def)

lemma liveObject_updates [simp]:
  "liveObject (s\<lparr>clusterSize := x\<rparr>) = liveObject s" "liveObject (emit r s) = liveObject s"
  "liveObject (emits rs s) = liveObject s"
  by (simp_all add: liveObject_def emit_def emits_def)







section \<open>Change detection\<close>

lemma isChanged_fetch_fails:
  "getErr e (clock s) \<noteq> None \<or> liveObject s = None \<Longrightarrow> fst (isChanged e s) = False"
  by (auto simp add: isChanged_def client_Get_def liveObject_def clock_def Let_def split: option.splits)

lemma isChanged_ignores_own_template:
  "fst (isChanged e (s\<lparr>self := (self s)\<lparr>Template := t\<rparr>\<rparr>)) = fst (isChanged e s)"
  by (simp add: isChanged_def client_Get_def clock_def emit_def Let_def split: option.splits prod.splits)

text \<open>
  Claim C9, evaluated on the concrete cluster. The node's own template and the live
  template are the same, so nothing is to be changed; the comparison is the
  structural one; yet \<open>isChanged\<close> answers \<open>true\<close>, because the template it hands
  to the comparison as the desired one is that of the zero value. When the fetch
  fails it answers \<open>false\<close>.
\<close>

theorem isChanged_reports_change_without_difference:
  "liveObject exampleNode = Some exampleSet \<and>
   Template (self exampleNode) = Template exampleSet \<and>
   fst (isChanged (calmEnv (\<lambda>n. 3)) exampleNode) = True \<and>
   fst (isChanged ((calmEnv (\<lambda>n. 3))\<lparr>getErr := (\<lambda>n. Some (StatusError OtherReason))\<rparr>) exampleNode) = False"
  by (simp add: isChanged_def client_Get_def clock_def emit_def Let_def liveObject_def
        exampleNode_def exampleSet_def calmEnv_def emptyStatefulSet_def emptyTemplate_def)

section \<open>Phase transitions\<close>

lemma advancesI:
  "phaseHistory st' = phaseHistory st @ new \<Longrightarrow> successively phaseStep (UpgradePhase st # new) \<Longrightarrow>
   UpgradePhase st' = last (UpgradePhase st # new) \<Longrightarrow> advances st st'"
  by (simp add: advances_def phasesSince_def)

lemma advances_refl: "advances st st"
  by (rule advancesI [where new = "[]"]) simp_all

lemma advances_flag: "advances st (st\<lparr>UnderUpgrade := x\<rparr>)"
  by (rule advancesI [where new = "[]"]) simp_all

lemma advances_setPhase: "phaseStep (UpgradePhase st) p \<Longrightarrow> advances st (setPhase p st)"
  by (rule advancesI [where new = "[p]"]) (simp_all add: setPhase_def)

lemma successively_chain:
  "successively P (x # xs) \<Longrightarrow> successively P (last (x # xs) # ys) \<Longrightarrow>
   successively P (x # xs @ ys)"
  by (induction xs arbitrary: x) auto

lemma advances_trans:
  assumes "advances a b" "advances b c"
  shows "advances a c"
proof -
  let ?n1 = "phasesSince a b" and ?n2 = "phasesSince b c"
  from assms have h: "phaseHistory b = phaseHistory a @ ?n1" "phaseHistory c = phaseHistory b @ ?n2"
    "successively phaseStep (UpgradePhase a # ?n1)" "successively phaseStep (UpgradePhase b # ?n2)"
    "UpgradePhase b = last (UpgradePhase a # ?n1)" "UpgradePhase c = last (UpgradePhase b # ?n2)"
    by (simp_all add: advances_def)
  have s: "successively phaseStep (UpgradePhase a # ?n1 @ ?n2)"
    using h(3) h(4) unfolding h(5) by (rule successively_chain)
  have l: "UpgradePhase c = last (UpgradePhase a # ?n1 @ ?n2)"
    unfolding h(6) h(5) by (cases ?n2) simp_all
  show ?thesis
    by (rule advancesI [where new = "?n1 @ ?n2"]) (use h s l in simp_all)
qed

lemma advances_andThen:
  assumes "advances st (fst (snd r))"
    and "\<And>st1 s1. advances st1 (fst (snd (f st1 s1)))"
  shows "advances st (fst (snd (andThen r f)))"
proof (cases r)
  case (fields fl st1 s1)
  show ?thesis
  proof (cases fl)
    case Continue
    have "advances st1 (fst (snd (f st1 s1)))" by (rule assms(2))
    with assms(1) fields have "advances st (fst (snd (f st1 s1)))"
      by (auto intro: advances_trans)
    with fields Continue show ?thesis by (simp add: andThen_def)
  next
    case (Returned x)
    with fields assms(1) show ?thesis by (simp add: andThen_def)
  next
    case Panicked
    with fields assms(1) show ?thesis by (simp add: andThen_def)
  qed
qed

lemma finish_status: "fst (snd (finish r x)) = fst (snd x)"
  by (cases x) (simp add: finish_def split: flow.splits)

lemma advances_recoveringData: "advances st (fst (snd (recoveringData st s)))"
proof (cases "UpgradePhase st = RecoveringData")
  case True
  have "advances st (setPhase ControllerUpdated st)"
    using True by (intro advances_setPhase) simp
  moreover have "advances (setPhase ControllerUpdated st) ((setPhase ControllerUpdated st)\<lparr>UnderUpgrade := ConditionEmpty\<rparr>)"
    by (rule advances_flag)
  ultimately show ?thesis using True
    by (auto simp add: recoveringData_def intro: advances_trans)
next
  case False
  then show ?thesis by (simp add: recoveringData_def advances_refl)
qed

lemma advances_restart_idle: "advances st (fst (snd (restart_idle st s)))"
  by (auto simp add: restart_idle_def advances_refl intro!: advances_setPhase)

lemma advances_to_recovering: "UpgradePhase st = NodeRestarting \<Longrightarrow> advances st (setPhase RecoveringData st)"
  by (intro advances_setPhase) simp

lemma advances_to_restarting:
  "UpgradePhase st = Empty \<or> UpgradePhase st = ControllerUpdated \<Longrightarrow> advances st (setPhase NodeRestarting st)"
  by (intro advances_setPhase) auto

lemma advances_rollingRestart_start: "advances st (fst (snd (rollingRestart_start e st s)))"
  by (simp add: rollingRestart_start_def advances_refl advances_flag
        split: prod.splits outcome.splits)

lemma advances_fullClusterRestart_start: "advances st (fst (snd (fullClusterRestart_start e st s)))"
  by (simp add: fullClusterRestart_start_def advances_refl advances_flag
        split: prod.splits outcome.splits)

lemma advances_update_start: "advances st (fst (snd (update_start e st s)))"
  by (simp add: update_start_def advances_refl advances_flag
        split: prod.splits outcome.splits)

lemma advances_update_idle: "advances st (fst (snd (update_idle e st s)))"
  by (auto simp add: update_idle_def advances_refl advances_to_restarting
        split: prod.splits outcome.splits option.splits)

lemma advances_rollingRestart_restarting: "advances st (fst (snd (rollingRestart_restarting e st s)))"
proof (cases "UpgradePhase st = NodeRestarting")
  case False
  then show ?thesis by (simp add: rollingRestart_restarting_def advances_refl)
next
  case True
  obtain r1 s1 where c: "createIfMissing e s = (r1, s1)"
    by (cases "createIfMissing e s")
  obtain r2 s2 where p: "partition_node e s1 = (r2, s2)"
    by (cases "partition_node e s1")
  show ?thesis
  proof (cases r1)
    case Panic
    with True c show ?thesis by (simp add: rollingRestart_restarting_def advances_refl)
  next
    case r1: (Return u)
    show ?thesis
    proof (cases r2)
      case Panic
      with True c p r1 show ?thesis by (simp add: rollingRestart_restarting_def advances_refl)
    next
      case (Return x)
      obtain ordinal perr where x: "x = (ordinal, perr)" by (cases x)
      obtain r3 s3 where f: "forDown (rollingRestart_step e) ordinal s2 = (r3, s3)"
        by (cases "forDown (rollingRestart_step e) ordinal s2")
      obtain werr b s4 where w: "waitForNodeRejoinCluster e s3 = ((werr, b), s4)"
        by (cases "waitForNodeRejoinCluster e s3") auto
      show ?thesis
        using True c p r1 Return x f w
        by (cases perr; cases r3; cases werr)
           (simp_all add: rollingRestart_restarting_def advances_refl advances_to_recovering)
    qed
  qed
qed

lemma advances_fullClusterRestart_restarting: "advances st (fst (snd (fullClusterRestart_restarting e st s)))"
proof (cases "UpgradePhase st = NodeRestarting")
  case False
  then show ?thesis by (simp add: fullClusterRestart_restarting_def advances_refl)
next
  case True
  obtain r2 s2 where p: "partition_node e s = (r2, s2)"
    by (cases "partition_node e s")
  show ?thesis
  proof (cases r2)
    case Panic
    with True p show ?thesis by (simp add: fullClusterRestart_restarting_def advances_refl)
  next
    case (Return x)
    obtain ordinal perr where x: "x = (ordinal, perr)" by (cases x)
    obtain r3 s3 where f: "forDown (fullClusterRestart_step e) ordinal s2 = (r3, s3)"
      by (cases "forDown (fullClusterRestart_step e) ordinal s2")
    show ?thesis
      using True p Return x f
      by (cases perr; cases r3)
         (simp_all add: fullClusterRestart_restarting_def advances_refl advances_to_recovering)
  qed
qed

lemma advances_update_restarting: "advances st (fst (snd (update_restarting e st s)))"
proof (cases "UpgradePhase st = NodeRestarting")
  case False
  then show ?thesis by (simp add: update_restarting_def advances_refl)
next
  case True
  obtain r2 s2 where p: "partition_node e s = (r2, s2)"
    by (cases "partition_node e s")
  show ?thesis
  proof (cases r2)
    case Panic
    with True p show ?thesis by (simp add: update_restarting_def advances_refl)
  next
    case (Return x)
    obtain ordinal perr where x: "x = (ordinal, perr)" by (cases x)
    obtain r3 s3 where f: "forDown (update_step e) ordinal s2 = (r3, s3)"
      by (cases "forDown (update_step e) ordinal s2")
    obtain werr b s4 where w: "waitForNodeRejoinCluster e s3 = ((werr, b), s4)"
      by (cases "waitForNodeRejoinCluster e s3") auto
    show ?thesis
      using True p Return x f w
      by (cases perr; cases r3; cases werr)
         (simp_all add: update_restarting_def advances_refl advances_to_recovering)
  qed
qed

lemma advances_rollingRestart: "advances st (fst (snd (rollingRestart e st s)))"
  unfolding rollingRestart_def finish_status
  by (intro advances_andThen advances_rollingRestart_start advances_restart_idle
        advances_rollingRestart_restarting advances_recoveringData)

lemma advances_fullClusterRestart: "advances st (fst (snd (fullClusterRestart e st s)))"
  unfolding fullClusterRestart_def finish_status
  by (intro advances_andThen advances_fullClusterRestart_start advances_restart_idle
        advances_fullClusterRestart_restarting advances_recoveringData)

lemma advances_update: "advances st (fst (snd (update e st s)))"
  unfolding update_def finish_status
  by (intro advances_andThen advances_update_start advances_update_idle
        advances_update_restarting advances_recoveringData)

lemma advances_callEntry: "advances st (fst (snd (callEntry e c st s)))"
  using advances_rollingRestart [of st e s] advances_fullClusterRestart [of st e s]
    advances_update [of st e s]
  by (cases c) (auto simp add: callEntry_def split: prod.splits)

lemma advances_callSequence: "advances st (fst (callSequence e cs st s))"
proof (induction cs arbitrary: st s)
  case Nil
  show ?case by (simp add: advances_refl)
next
  case (Cons c cs)
  obtain p st1 s1 where ce: "callEntry e c st s = (p, st1, s1)"
    by (cases "callEntry e c st s")
  have a: "advances st st1" using advances_callEntry [of st e c s] ce by simp
  show ?case
  proof (cases p)
    case True
    with ce a show ?thesis by simp
  next
    case False
    have "advances st1 (fst (callSequence e cs st1 s1))" by (rule Cons.IH)
    with a have "advances st (fst (callSequence e cs st1 s1))" by (rule advances_trans)
    with ce False show ?thesis by simp
  qed
qed

text \<open>
  Claim C1. Over any sequence of calls to \<open>rollingRestart\<close>, \<open>fullClusterRestart\<close>
  and \<open>update\<close>, in any environment and from any status, every assignment to
  \<open>UpgradePhase\<close> follows one of the transitions Empty or ControllerUpdated to
  NodeRestarting, NodeRestarting to RecoveringData, RecoveringData to
  ControllerUpdated: the phases assigned since the start, read in order after the
  starting phase, form a chain of such transitions, and the status ends in the last
  of them.
\<close>

theorem phase_only_advances:
  "phaseHistory (fst (callSequence e cs st s)) =
     phaseHistory st @ phasesSince st (fst (callSequence e cs st s)) \<and>
   successively phaseStep (UpgradePhase st # phasesSince st (fst (callSequence e cs st s))) \<and>
   UpgradePhase (fst (callSequence e cs st s)) =
     last (UpgradePhase st # phasesSince st (fst (callSequence e cs st s)))"
  using advances_callSequence [of st e cs s] by (simp add: advances_def)

section \<open>The loop over the ordinals\<close>

lemma ordinalsFrom_pos: "0 < p \<Longrightarrow> ordinalsFrom p = p # ordinalsFrom (p - 1)"
proof -
  assume a: "0 < p"
  then obtain m where m: "nat p = Suc m" by (cases "nat p") auto
  with a have "nat (p - 1) = m" by simp
  moreover from a m have "p = int (Suc m)" by linarith
  ultimately show ?thesis using m by (simp add: ordinalsFrom_def)
qed

lemma ordinalsFrom_nonpos: "p \<le> 0 \<Longrightarrow> ordinalsFrom p = []"
  by (simp add: ordinalsFrom_def)

lemma forDown_forEach: "forDown body index s = forEach body (ordinalsFrom index) s"
proof (induction body index s rule: forDown.induct)
  case (1 body index s)
  show ?case
  proof (cases "0 < index")
    case True
    obtain fl s' where b: "body index s = (fl, s')" by (cases "body index s")
    show ?thesis
    proof (cases fl)
      case Continue
      with 1 [OF True b [symmetric]] True b show ?thesis
        by (simp add: ordinalsFrom_pos)
    next
      case (Returned x)
      with True b show ?thesis by (simp add: ordinalsFrom_pos)
    next
      case Panicked
      with True b show ?thesis by (simp add: ordinalsFrom_pos)
    qed
  next
    case False
    then show ?thesis by (simp add: ordinalsFrom_nonpos)
  qed
qed

lemma writtenPartitions_append:
  "writtenPartitions (xs @ ys) = writtenPartitions xs @ writtenPartitions ys"
  by (induction xs rule: writtenPartitions.induct) (simp_all split: option.splits)

lemma deletedPods_append: "deletedPods (xs @ ys) = deletedPods xs @ deletedPods ys"
  by (induction xs rule: deletedPods.induct) simp_all

lemma writtenPartitions_step:
  "list_all (stepRequest n) rs \<Longrightarrow> list_all (\<lambda>p. p = n) (writtenPartitions rs)"
  by (induction rs rule: writtenPartitions.induct) (simp_all add: stepRequest_def)

lemma requestsSince_append: "trace s' = trace s @ rs \<Longrightarrow> requestsSince s s' = rs"
  by (simp add: requestsSince_def)

lemma stepTraceI:
  "key s' = key s \<Longrightarrow> clusterName s' = clusterName s \<Longrightarrow> trace s' = trace s @ rs \<Longrightarrow>
   list_all (stepRequest n) rs \<Longrightarrow> stepTrace n s s'"
  by (simp add: stepTrace_def requestsSince_def)

lemma stepTrace_refl: "stepTrace n s s"
  by (rule stepTraceI [where rs = "[]"]) simp_all

lemma stepTrace_trans: "stepTrace n a b \<Longrightarrow> stepTrace n b c \<Longrightarrow> stepTrace n a c"
  unfolding stepTrace_def
  by (rule stepTraceI [where rs = "requestsSince a b @ requestsSince b c", unfolded stepTrace_def])
     simp_all

lemma stepTrace_emit:
  "stepRequest n r \<Longrightarrow> stepTrace n s (emit r s)"
  by (rule stepTraceI [where rs = "[r]"]) (simp_all add: key_def)

lemma stepTrace_emits:
  "list_all (stepRequest n) rs \<Longrightarrow> stepTrace n s (emits rs s)"
  by (rule stepTraceI [where rs = rs]) (simp_all add: key_def)

lemma stepTrace_partitionWritten: "partitionWritten n s s' \<Longrightarrow> stepTrace n s s'"
proof -
  assume a: "partitionWritten n s s'"
  then obtain rs where rs: "trace s' = trace s @ rs" "list_all (partitionRequest n) rs"
    by (auto simp add: partitionWritten_def)
  have "list_all (stepRequest n) rs"
    using rs(2) by (induction rs) (auto simp add: partitionRequest_def stepRequest_def split: request.splits)
  with a rs(1) show ?thesis
    by (intro stepTraceI [where rs = rs]) (simp_all add: partitionWritten_def)
qed

lemma wait_Poll_emits:
  assumes c: "\<And>s. c s = ((d (clusterSize s) (fst (nodeCount e (clock s))), None),
                 emit (ReqNodeCount (clusterName s) (Namespace (self s))) s)"
  shows "\<exists>m. snd (wait_Poll n c s) = emits (replicate m (ReqNodeCount (clusterName s) (Namespace (self s)))) s"
proof (induction n arbitrary: s)
  case 0
  show ?case by (rule exI [where x = 0]) (simp add: emits_def)
next
  case (Suc n)
  let ?r = "ReqNodeCount (clusterName s) (Namespace (self s))"
  show ?case
  proof (cases "d (clusterSize s) (fst (nodeCount e (clock s)))")
    case True
    then have "snd (wait_Poll (Suc n) c s) = emits (replicate 1 ?r) s"
      by (simp add: c [of s] emit_as_emits)
    then show ?thesis by blast
  next
    case False
    obtain m where "snd (wait_Poll n c (emit ?r s)) = emits (replicate m ?r) (emit ?r s)"
      using Suc.IH [of "emit ?r s"] by auto
    with False have "snd (wait_Poll (Suc n) c s) = emits (replicate (Suc m) ?r) s"
      by (simp add: c [of s] emits_emit)
    then show ?thesis by blast
  qed
qed

lemma waitRejoin_emits:
  "\<exists>m. snd (waitForNodeRejoinCluster e s) = emits (replicate m (ReqNodeCount (clusterName s) (Namespace (self s)))) s"
  using wait_Poll_emits [of "rejoinCondition e" "\<lambda>a b. a \<le> b" e "pollTries pollInterval pollTimeout" s]
  by (cases "wait_Poll (pollTries pollInterval pollTimeout) (rejoinCondition e) s")
     (simp add: waitForNodeRejoinCluster_def rejoinCondition_eq)

lemma waitLeave_emits:
  "\<exists>m. snd (waitForNodeLeaveCluster e s) = emits (replicate m (ReqNodeCount (clusterName s) (Namespace (self s)))) s"
  using wait_Poll_emits [of "leaveCondition e" "\<lambda>a b. b < a" e "pollTries pollInterval pollTimeout" s]
  by (cases "wait_Poll (pollTries pollInterval pollTimeout) (leaveCondition e) s")
     (simp add: waitForNodeLeaveCluster_def leaveCondition_eq)

lemma stepTrace_waitRejoin: "stepTrace n s (snd (waitForNodeRejoinCluster e s))"
proof -
  obtain m where "snd (waitForNodeRejoinCluster e s) = emits (replicate m (ReqNodeCount (clusterName s) (Namespace (self s)))) s"
    using waitRejoin_emits by blast
  then show ?thesis
    by (simp add: stepTrace_emits list_all_iff stepRequest_def)
qed

lemma stepTrace_waitLeave: "stepTrace n s (snd (waitForNodeLeaveCluster e s))"
proof -
  obtain m where "snd (waitForNodeLeaveCluster e s) = emits (replicate m (ReqNodeCount (clusterName s) (Namespace (self s)))) s"
    using waitLeave_emits by blast
  then show ?thesis
    by (simp add: stepTrace_emits list_all_iff stepRequest_def)
qed

lemma stepTrace_DeletePod: "stepTrace n s (snd (DeletePod e p ns s))"
  by (simp add: DeletePod_def stepTrace_emit stepRequest_def)

lemma stepTrace_setPartition: "stepTrace n s (snd (setPartition e n s))"
  by (rule stepTrace_partitionWritten) (rule setPartition_written)

lemma stepTrace_rollingRestart_step:
  "stepTrace (index - 1) s (snd (rollingRestart_step e index s))"
proof -
  let ?n = "index - 1"
  obtain w1 s1 where a1: "waitForNodeRejoinCluster e s = (w1, s1)"
    by (cases "waitForNodeRejoinCluster e s")
  obtain d2 s2 where a2: "DeletePod e (podNameOf (name s) ?n) (Namespace (self s1)) s1 = (d2, s2)"
    by (cases "DeletePod e (podNameOf (name s) ?n) (Namespace (self s1)) s1")
  obtain w3 s3 where a3: "waitForNodeLeaveCluster e s2 = (w3, s3)"
    by (cases "waitForNodeLeaveCluster e s2")
  obtain r4 s4 where a4: "setPartition e ?n s3 = (r4, s4)"
    by (cases "setPartition e ?n s3")
  have t1: "stepTrace ?n s s1" using stepTrace_waitRejoin [of ?n s e] a1 by simp
  have t2: "stepTrace ?n s s2"
    using stepTrace_DeletePod [of ?n s1 e "podNameOf (name s) ?n" "Namespace (self s1)"] a2 t1
    by (auto intro: stepTrace_trans)
  have t3: "stepTrace ?n s s3" using stepTrace_waitLeave [of ?n s2 e] a3 t2
    by (auto intro: stepTrace_trans)
  have t4: "stepTrace ?n s s4" using stepTrace_setPartition [of ?n s3 e] a4 t3
    by (auto intro: stepTrace_trans)
  obtain e1 b1 where w1: "w1 = (e1, b1)" by (cases w1)
  obtain e3 b3 where w3: "w3 = (e3, b3)" by (cases w3)
  show ?thesis
    using a1 a2 a3 a4 t1 t2 t3 t4 w1 w3
    by (cases e1; cases d2; cases e3; cases r4) (simp_all add: rollingRestart_step_def)
qed

lemma stepTrace_fullClusterRestart_step:
  "stepTrace (index - 1) s (snd (fullClusterRestart_step e index s))"
proof -
  let ?n = "index - 1"
  obtain d2 s2 where a2: "DeletePod e (podNameOf (name s) ?n) (Namespace (self s)) s = (d2, s2)"
    by (cases "DeletePod e (podNameOf (name s) ?n) (Namespace (self s)) s")
  obtain w3 s3 where a3: "waitForNodeLeaveCluster e s2 = (w3, s3)"
    by (cases "waitForNodeLeaveCluster e s2")
  obtain r4 s4 where a4: "setPartition e ?n s3 = (r4, s4)"
    by (cases "setPartition e ?n s3")
  have t2: "stepTrace ?n s s2"
    using stepTrace_DeletePod [of ?n s e "podNameOf (name s) ?n" "Namespace (self s)"] a2 by simp
  have t3: "stepTrace ?n s s3" using stepTrace_waitLeave [of ?n s2 e] a3 t2
    by (auto intro: stepTrace_trans)
  have t4: "stepTrace ?n s s4" using stepTrace_setPartition [of ?n s3 e] a4 t3
    by (auto intro: stepTrace_trans)
  obtain e3 b3 where w3: "w3 = (e3, b3)" by (cases w3)
  show ?thesis
    using a2 a3 a4 t2 t3 t4 w3
    by (cases d2; cases e3; cases r4) (simp_all add: fullClusterRestart_step_def)
qed

lemma stepTrace_update_step:
  "stepTrace (index - 1) s (snd (update_step e index s))"
proof -
  let ?n = "index - 1"
  obtain w1 s1 where a1: "waitForNodeRejoinCluster e s = (w1, s1)"
    by (cases "waitForNodeRejoinCluster e s")
  obtain r4 s4 where a4: "setPartition e ?n s1 = (r4, s4)"
    by (cases "setPartition e ?n s1")
  obtain w3 s3 where a3: "waitForNodeLeaveCluster e s4 = (w3, s3)"
    by (cases "waitForNodeLeaveCluster e s4")
  have t1: "stepTrace ?n s s1" using stepTrace_waitRejoin [of ?n s e] a1 by simp
  have t4: "stepTrace ?n s s4" using stepTrace_setPartition [of ?n s1 e] a4 t1
    by (auto intro: stepTrace_trans)
  have t3: "stepTrace ?n s s3" using stepTrace_waitLeave [of ?n s4 e] a3 t4
    by (auto intro: stepTrace_trans)
  obtain e1 b1 where w1: "w1 = (e1, b1)" by (cases w1)
  obtain e3 b3 where w3: "w3 = (e3, b3)" by (cases w3)
  show ?thesis
    using a1 a3 a4 t1 t3 t4 w1 w3
    by (cases e1; cases r4; cases e3) (simp_all add: update_step_def)
qed

lemma loopTraceI:
  "key s' = key s \<Longrightarrow> clusterName s' = clusterName s \<Longrightarrow> trace s' = trace s @ rs \<Longrightarrow>
   sorted_wrt (\<ge>) (writtenPartitions rs) \<Longrightarrow>
   list_all (\<lambda>p. 0 \<le> p \<and> p < hi) (writtenPartitions rs) \<Longrightarrow> loopTrace hi s s'"
  by (simp add: loopTrace_def requestsSince_def)

lemma loopTrace_step:
  assumes pos: "0 < index" and st: "stepTrace (index - 1) a b" and lp: "loopTrace (index - 1) b c"
  shows "loopTrace index a c"
proof -
  let ?r1 = "requestsSince a b" and ?r2 = "requestsSince b c"
  have w1: "list_all (\<lambda>p. p = index - 1) (writtenPartitions ?r1)"
    using st by (simp add: stepTrace_def writtenPartitions_step)
  have w2: "sorted_wrt (\<ge>) (writtenPartitions ?r2)"
    "list_all (\<lambda>p. 0 \<le> p \<and> p < index - 1) (writtenPartitions ?r2)"
    using lp by (simp_all add: loopTrace_def)
  have s1: "sorted_wrt (\<ge>) (writtenPartitions ?r1)"
    using w1 by (simp add: sorted_wrt_iff_nth_less list_all_length)
  have "sorted_wrt (\<ge>) (writtenPartitions ?r1 @ writtenPartitions ?r2)"
    using s1 w1 w2 by (auto simp add: sorted_wrt_append list_all_iff)
  moreover have "list_all (\<lambda>p. 0 \<le> p \<and> p < index) (writtenPartitions ?r1 @ writtenPartitions ?r2)"
    using pos w1 w2 by (auto simp add: list_all_iff)
  ultimately show ?thesis
    using st lp
    by (intro loopTraceI [where rs = "?r1 @ ?r2"])
       (simp_all add: stepTrace_def loopTrace_def writtenPartitions_append)
qed

lemma loopTrace_refl: "loopTrace hi s s"
  by (rule loopTraceI [where rs = "[]"]) simp_all

lemma loopTrace_of_step:
  assumes pos: "0 < index" and st: "stepTrace (index - 1) a b"
  shows "loopTrace index a b"
  using loopTrace_step [OF pos st loopTrace_refl] .

lemma loopTrace_forDown:
  assumes body: "\<And>i s. stepTrace (i - 1) s (snd (body i s))"
  shows "loopTrace index s (snd (forDown body index s))"
  using body
proof (induction body index s rule: forDown.induct)
  case (1 body index s)
  show ?case
  proof (cases "0 < index")
    case False
    then show ?thesis by (simp add: loopTrace_refl)
  next
    case True
    obtain fl s' where b: "body index s = (fl, s')" by (cases "body index s")
    have st: "stepTrace (index - 1) s s'" using "1.prems" [of index s] b by simp
    show ?thesis
    proof (cases fl)
      case Continue
      have "loopTrace (index - 1) s' (snd (forDown body (index - 1) s'))"
        using "1.IH" [OF True b [symmetric] Continue] "1.prems" by blast
      with True st have "loopTrace index s (snd (forDown body (index - 1) s'))"
        by (rule loopTrace_step)
      with True b Continue show ?thesis by simp
    next
      case (Returned x)
      with True b loopTrace_of_step [OF True st] show ?thesis by simp
    next
      case Panicked
      with True b loopTrace_of_step [OF True st] show ?thesis by simp
    qed
  qed
qed

(*THMS*)

end
